theory Spec2Isabelle
  imports Complex_Main "HOL-Library.Word"
begin

section \<open>BaseRawReader: reading raw EEG time series\<close>

text \<open>
  A shallow embedding of \<^verbatim>\<open>ptsa/data/readers/BaseRawReader.py\<close>.  The reader is a
  record of its attributes, the file system is a parameter of every operation, every
  exception of the source is a value of \<open>error\<close>, and what the source prints, warns
  about, stats or opens is collected in a list of events.
\<close>

subsection \<open>Values\<close>

text \<open>
  The elements of the result array are 64-bit floating values.  The model keeps what
  the claims need of them: not-a-number (one value, which is what \<^verbatim>\<open>np.isnan\<close> can
  tell), the two infinities (\<open>Inf True\<close> is the negative one) and the finite values
  as real numbers.
\<close>

datatype fl = NaN | Inf bool | Fin real

text \<open>
  The product \<^verbatim>\<open>x * gain\<close>.  On not-a-number and the infinities it follows IEEE 754.
  Finite values are multiplied as real numbers: the source rounds the product to the
  nearest double, which is the same value whenever the product is a double (as for
  the small integers and the gain of the scenarios below).
\<close>

fun fmul :: "fl \<Rightarrow> fl \<Rightarrow> fl" where
  "fmul NaN y = NaN"
| "fmul x NaN = NaN"
| "fmul (Inf s) (Inf t) = Inf (s \<noteq> t)"
| "fmul (Inf s) (Fin y) = (if y = 0 then NaN else Inf (s \<noteq> (y < 0)))"
| "fmul (Fin x) (Inf t) = (if x = 0 then NaN else Inf ((x < 0) \<noteq> t))"
| "fmul (Fin x) (Fin y) = Fin (x * y)"

type_synonym byte = "8 word"

text \<open>A value of the parameter mapping \<^verbatim>\<open>params_dict\<close>: a string or a float.\<close>

datatype pval = PStr string | PFloat fl

datatype error =
    IndexError
  | KeyError
  | OSError
  | StructError
  | TypeError
  | ValueError
  | NoSuchNodeError
  | RuntimeError pval "string list"

text \<open>
  What a call leaves behind besides its result: \<open>Getsize\<close> is \<^verbatim>\<open>os.path.getsize\<close>,
  \<open>Open\<close> is \<^verbatim>\<open>open(eegfname, 'rb')\<close>, \<open>Open_h5\<close> is \<^verbatim>\<open>tables.open_file\<close>,
  \<open>Warn_no_format\<close> is the \<^verbatim>\<open>RuntimeWarning\<close> of the constructor, and the two
  \<open>Print\<close> events are the two messages of the reading loops, with the offset and the
  file name they mention.
\<close>

datatype event =
    Getsize string
  | Open string
  | Open_h5 string
  | Warn_no_format
  | Print_negative_offset "64 word" string
  | Print_cannot_read_full_chunk "64 word" string

subsection \<open>The reader and the files\<close>

record FileFormat =
  data_size :: nat
  format_string :: string

text \<open>
  The attributes of a reader.  \<open>start_offsets\<close> is an array of 64-bit signed integers
  (\<^verbatim>\<open>np.int\<close>), read with \<open>sint\<close>; \<open>read_size\<close> is a Python integer.
\<close>

record reader =
  dataroot :: string
  channels :: "string list"
  start_offsets :: "64 word list"
  read_size :: int
  file_format :: FileFormat
  params_dict :: "(string \<times> pval) list"

text \<open>
  A three-dimensional array: its shape, which an array has also when a dimension is
  empty, and its elements as nested lists.
\<close>

record ndarray =
  shape :: "nat \<times> nat \<times> nat"
  elems :: "fl list list list"

text \<open>
  The combined container of the tabular backend.  Its root group has two child nodes
  and no other: the two-dimensional \<^verbatim>\<open>eeg_timeseries\<close>, with its shape and the list of
  its rows (each row has as many elements as the shape says), and \<^verbatim>\<open>ports\<close>.  The
  attribute \<^verbatim>\<open>by_row\<close> of the root group, when the file has it, is in the group's
  attribute set.
\<close>

record container =
  timeseries_shape :: "nat \<times> nat"
  eeg_timeseries :: "fl list list"
  ports :: "int list"
  by_row :: "bool option"

text \<open>
  The file system: \<open>flat\<close> gives the bytes of every file that exists, \<open>h5\<close> the
  content of every path that \<^verbatim>\<open>tables.open_file\<close> can open.
\<close>

record filesystem =
  flat :: "string \<Rightarrow> byte list option"
  h5 :: "string \<Rightarrow> container option"

subsection \<open>The format table and the constructor\<close>

definition file_format_dict :: "(string \<times> FileFormat) list" where
  "file_format_dict =
     [(''single'', \<lparr>data_size = 4, format_string = ''f''\<rparr>),
      (''float32'', \<lparr>data_size = 4, format_string = ''f''\<rparr>),
      (''short'', \<lparr>data_size = 2, format_string = ''h''\<rparr>),
      (''int16'', \<lparr>data_size = 2, format_string = ''h''\<rparr>),
      (''int32'', \<lparr>data_size = 4, format_string = ''i''\<rparr>),
      (''double'', \<lparr>data_size = 8, format_string = ''d''\<rparr>),
      (''float64'', \<lparr>data_size = 8, format_string = ''d''\<rparr>)]"

text \<open>
  \<^verbatim>\<open>file_format_dict[format_name]\<close>: a key that is not a string is in no entry of the
  table.
\<close>

definition lookup_format :: "pval \<Rightarrow> FileFormat option" where
  "lookup_format v = (case v of PStr name \<Rightarrow> map_of file_format_dict name | PFloat _ \<Rightarrow> None)"

text \<open>
  The constructor, after \<^verbatim>\<open>init_attrs\<close> has stored the four keyword arguments and
  \<^verbatim>\<open>ParamsReader(dataroot).read()\<close> has returned the mapping \<open>params\<close> (both belong to
  other modules).  An unknown format name raises \<^verbatim>\<open>RuntimeError\<close>, whose message is
  made of the format name and the keys of the table, inside the handler
  of the inner \<^verbatim>\<open>KeyError\<close>, which the outer \<^verbatim>\<open>except KeyError\<close> does not catch; a
  missing key raises \<^verbatim>\<open>KeyError\<close> in the outer \<^verbatim>\<open>try\<close>, which warns and keeps the
  default \<^verbatim>\<open>file_format_dict['int16']\<close>.
\<close>

definition init :: "string \<Rightarrow> string list \<Rightarrow> 64 word list \<Rightarrow> int \<Rightarrow> (string \<times> pval) list
    \<Rightarrow> (error + reader) \<times> event list" where
  "init droot chans offs rs params =
     (let self = \<lparr>dataroot = droot, channels = chans, start_offsets = offs, read_size = rs,
                  file_format = \<lparr>data_size = 2, format_string = ''h''\<rparr>,
                  params_dict = params\<rparr>
      in case map_of params ''format'' of
           None \<Rightarrow> (Inr self, [Warn_no_format])
         | Some format_name \<Rightarrow>
             (case lookup_format format_name of
                None \<Rightarrow> (Inl (RuntimeError format_name (map fst file_format_dict)), [])
              | Some ff \<Rightarrow> (Inr (self\<lparr>file_format := ff\<rparr>), [])))"

subsection \<open>Decoding samples\<close>

text \<open>The unsigned value of a little-endian byte sequence.\<close>

fun le_nat :: "byte list \<Rightarrow> nat" where
  "le_nat [] = 0"
| "le_nat (b # bs) = unat b + 256 * le_nat bs"

text \<open>Two's complement on \<open>w\<close> bits.\<close>

definition signed :: "nat \<Rightarrow> nat \<Rightarrow> int" where
  "signed w n = (if n < 2 ^ (w - 1) then int n else int n - 2 ^ w)"

text \<open>
  The value of an IEEE 754 binary float with \<open>eb\<close> exponent bits and \<open>mb\<close> fraction
  bits, given as its bit pattern \<open>n\<close>.
\<close>

definition scale2 :: "real \<Rightarrow> int \<Rightarrow> real" where
  "scale2 x k = (if 0 \<le> k then x * 2 ^ nat k else x / 2 ^ nat (- k))"

definition ieee :: "nat \<Rightarrow> nat \<Rightarrow> nat \<Rightarrow> fl" where
  "ieee eb mb n =
     (let m = n mod 2 ^ mb;
          e = (n div 2 ^ mb) mod 2 ^ eb;
          s = ((n div 2 ^ (mb + eb)) mod 2 = 1);
          bias = int (2 ^ (eb - 1)) - 1;
          mag = (if e = 0 then scale2 (real m) (1 - bias - int mb)
                 else scale2 (real (2 ^ mb + m)) (int e - bias - int mb))
      in if e = 2 ^ eb - 1 then (if m = 0 then Inf s else NaN)
         else Fin (if s then - mag else mag))"

text \<open>\<^verbatim>\<open>struct.calcsize\<close> of one item of the four format characters of the table.\<close>

definition calcsize :: "string \<Rightarrow> nat option" where
  "calcsize c =
     (if c = ''h'' then Some 2 else if c = ''i'' then Some 4
      else if c = ''f'' then Some 4 else if c = ''d'' then Some 8 else None)"

text \<open>
  One item: \<^verbatim>\<open>h\<close> and \<^verbatim>\<open>i\<close> give Python integers, which the assignment into the
  float array converts exactly; \<^verbatim>\<open>f\<close> and \<^verbatim>\<open>d\<close> give floats.
\<close>

definition unpack_item :: "string \<Rightarrow> byte list \<Rightarrow> fl" where
  "unpack_item c bs =
     (if c = ''h'' then Fin (real_of_int (signed 16 (le_nat bs)))
      else if c = ''i'' then Fin (real_of_int (signed 32 (le_nat bs)))
      else if c = ''f'' then ieee 8 23 (le_nat bs)
      else ieee 11 52 (le_nat bs))"

fun chunks :: "nat \<Rightarrow> nat \<Rightarrow> 'a list \<Rightarrow> 'a list list" where
  "chunks k 0 xs = []"
| "chunks k (Suc n) xs = take k xs # chunks k n (drop k xs)"

text \<open>
  \<^verbatim>\<open>struct.unpack('<' + str(n) + c, data)\<close>: \<^verbatim>\<open>struct.error\<close> (here \<open>None\<close>) unless
  the buffer has exactly the \<open>n\<close> items' bytes.
\<close>

definition struct_unpack :: "nat \<Rightarrow> string \<Rightarrow> byte list \<Rightarrow> fl list option" where
  "struct_unpack n c data =
     (case calcsize c of
        None \<Rightarrow> None
      | Some k \<Rightarrow> if length data = n * k then Some (map (unpack_item c) (chunks k n data))
                  else None)"

subsection \<open>The binary backend\<close>

text \<open>
  The name of the file of a channel: \<^verbatim>\<open>self.dataroot + '.' + channel\<close>.  Channel
  labels are strings here; a label that is a byte string is decoded to the same name.
\<close>

definition eegfname_of :: "reader \<Rightarrow> string \<Rightarrow> string" where
  "eegfname_of self channel = dataroot self @ ''.'' @ channel"

text \<open>
  \<^verbatim>\<open>get_file_size\<close>: the size of the first channel's file.  \<^verbatim>\<open>channels[0]\<close> raises
  \<^verbatim>\<open>IndexError\<close> on an empty array, \<^verbatim>\<open>os.path.getsize\<close> raises \<^verbatim>\<open>OSError\<close> when the
  file does not exist.
\<close>

definition get_file_size :: "filesystem \<Rightarrow> reader \<Rightarrow> (error + nat) \<times> event list" where
  "get_file_size fs self =
     (case channels self of
        [] \<Rightarrow> (Inl IndexError, [])
      | ch # _ \<Rightarrow>
          (let eegfname = eegfname_of self ch
           in case flat fs eegfname of
                None \<Rightarrow> (Inl OSError, [Getsize eegfname])
              | Some bs \<Rightarrow> (Inr (length bs), [Getsize eegfname])))"

text \<open>
  \<^verbatim>\<open>efile.seek(pos, 0)\<close> followed by \<^verbatim>\<open>efile.read(n)\<close>: the bytes that are there, at
  most \<open>n\<close> of them, none when the position is at or after the end of the file.
\<close>

definition seek_read :: "byte list \<Rightarrow> nat \<Rightarrow> nat \<Rightarrow> byte list" where
  "seek_read efile pos n = take n (drop pos efile)"

type_synonym tensor = "fl list list list"
type_synonym mask = "bool list list"
type_synonym arrays = "tensor \<times> mask \<times> event list"

text \<open>
  The loop over the start offsets of channel \<open>c\<close>, from index \<open>e\<close> on, on the open file
  \<open>efile\<close>.  \<open>rs\<close> is \<^verbatim>\<open>self.read_size\<close>, which is not negative here.  The position
  \<^verbatim>\<open>data_size * start_offset\<close> is a 64-bit product and wraps; \<^verbatim>\<open>seek\<close> to a negative
  position raises \<^verbatim>\<open>OSError\<close>.  \<^verbatim>\<open>read\<close> returns the bytes that are there, at most
  the number asked for.  The indices \<open>c\<close> and \<open>e\<close> enumerate the very lists that gave
  the arrays their shape, so no assignment is out of range.  An exception leaves the
  loop with the events so far.
\<close>

fun offsets_loop :: "FileFormat \<Rightarrow> nat \<Rightarrow> string \<Rightarrow> byte list \<Rightarrow> nat \<Rightarrow> nat \<Rightarrow> 64 word list
    \<Rightarrow> arrays \<Rightarrow> error \<times> event list + arrays" where
  "offsets_loop ff rs eegfname efile c e [] st = Inr st"
| "offsets_loop ff rs eegfname efile c e (start_offset # rest) (eventdata, read_ok_mask, out) =
     (if start_offset <s 0
      then offsets_loop ff rs eegfname efile c (Suc e) rest
             (eventdata, read_ok_mask[c := (read_ok_mask ! c)[e := False]],
              out @ [Print_negative_offset start_offset eegfname])
      else
        (let pos = word_of_nat (data_size ff) * start_offset
         in if pos <s 0 then Inl (OSError, out)
            else
              (let data = seek_read efile (unat pos) (data_size ff * rs)
               in case struct_unpack (length data div data_size ff) (format_string ff) data of
                    None \<Rightarrow> Inl (StructError, out)
                  | Some vals \<Rightarrow>
                      if length vals < rs
                      then offsets_loop ff rs eegfname efile c (Suc e) rest
                             (eventdata, read_ok_mask[c := (read_ok_mask ! c)[e := False]],
                              out @ [Print_cannot_read_full_chunk start_offset eegfname])
                      else offsets_loop ff rs eegfname efile c (Suc e) rest
                             (eventdata[c := (eventdata ! c)[e := vals]], read_ok_mask, out))))"

text \<open>The loop over the channels, from index \<open>c\<close> on.  \<^verbatim>\<open>open\<close> raises when the file is missing.\<close>

fun channels_loop :: "filesystem \<Rightarrow> reader \<Rightarrow> nat \<Rightarrow> string list \<Rightarrow> arrays
    \<Rightarrow> error \<times> event list + arrays" where
  "channels_loop fs self c [] st = Inr st"
| "channels_loop fs self c (channel # rest) (eventdata, read_ok_mask, out) =
     (let eegfname = eegfname_of self channel
      in case flat fs eegfname of
           None \<Rightarrow> Inl (OSError, out)
         | Some efile \<Rightarrow>
             (case offsets_loop (file_format self) (nat (read_size self)) eegfname efile c 0
                     (start_offsets self) (eventdata, read_ok_mask, out @ [Open eegfname]) of
                Inl x \<Rightarrow> Inl x
              | Inr st \<Rightarrow> channels_loop fs self (Suc c) rest st))"

text \<open>
  \<^verbatim>\<open>read_binary\<close>, once \<^verbatim>\<open>self.read_size\<close> is not negative: the arrays are allocated
  with the shape \<^verbatim>\<open>(len(channels), len(start_offsets), read_size)\<close>, filled with
  not-a-number and with \<^verbatim>\<open>True\<close>, and the loops run.
\<close>

definition read_binary_resolved :: "filesystem \<Rightarrow> reader \<Rightarrow> event list
    \<Rightarrow> (error + ndarray \<times> mask) \<times> event list" where
  "read_binary_resolved fs self out =
     (let eventdata = replicate (length (channels self))
                        (replicate (length (start_offsets self))
                           (replicate (nat (read_size self)) NaN));
          read_ok_mask = replicate (length (channels self))
                           (replicate (length (start_offsets self)) True)
      in case channels_loop fs self 0 (channels self) (eventdata, read_ok_mask, out) of
           Inl (err, out') \<Rightarrow> (Inl err, out')
         | Inr (eventdata', read_ok_mask', out') \<Rightarrow>
             (Inr (\<lparr>shape = (length (channels self), length (start_offsets self),
                             nat (read_size self)),
                    elems = eventdata'\<rparr>, read_ok_mask'), out'))"

text \<open>
  \<^verbatim>\<open>read_binary\<close>.  A negative \<^verbatim>\<open>read_size\<close> is first replaced, in the reader itself, by
  \<^verbatim>\<open>int(get_file_size() / data_size)\<close>, the floor of the quotient (the float division
  of Python 3 is exact for any file of less than \<open>2 ^ 53\<close> bytes).  The result is
  the outcome, the reader after the call and the events.
\<close>

definition read_binary :: "filesystem \<Rightarrow> reader
    \<Rightarrow> (error + ndarray \<times> mask) \<times> reader \<times> event list" where
  "read_binary fs self =
     (if read_size self < 0
      then (case get_file_size fs self of
              (Inl err, out) \<Rightarrow> (Inl err, self, out)
            | (Inr sz, out) \<Rightarrow>
                (let self' = self\<lparr>read_size := int (sz div data_size (file_format self))\<rparr>;
                     (res, out') = read_binary_resolved fs self' out
                 in (res, self', out')))
      else (let (res, out) = read_binary_resolved fs self [] in (res, self, out)))"

subsection \<open>The tabular backend\<close>

text \<open>
  \<^verbatim>\<open>self.channels.astype(int)\<close> on one label, which follows the syntax of Python's
  \<^verbatim>\<open>int\<close>: white space around, an optional sign, and decimal digits with single
  underscores between them; anything else raises \<^verbatim>\<open>ValueError\<close> (here \<open>None\<close>).
\<close>

definition is_space :: "char \<Rightarrow> bool" where
  "is_space ch = (of_char ch = (32 :: nat) \<or> ((9 :: nat) \<le> of_char ch \<and> of_char ch \<le> (13 :: nat)))"

definition strip :: "string \<Rightarrow> string" where
  "strip s = rev (dropWhile is_space (rev (dropWhile is_space s)))"

definition digit_val :: "char \<Rightarrow> nat option" where
  "digit_val ch =
     (if of_char ch \<ge> (48::nat) \<and> of_char ch \<le> (57::nat) then Some (of_char ch - 48) else None)"

text \<open>The digits after the first one: each is a digit, or an underscore and a digit.\<close>

fun digits_val :: "nat \<Rightarrow> string \<Rightarrow> nat option" where
  "digits_val acc [] = Some acc"
| "digits_val acc [ch] =
     (case digit_val ch of None \<Rightarrow> None | Some d \<Rightarrow> Some (10 * acc + d))"
| "digits_val acc (ch # ch' # rest) =
     (if ch = CHR ''_''
      then (case digit_val ch' of None \<Rightarrow> None | Some d \<Rightarrow> digits_val (10 * acc + d) rest)
      else (case digit_val ch of None \<Rightarrow> None | Some d \<Rightarrow> digits_val (10 * acc + d) (ch' # rest)))"

definition unsigned_val :: "string \<Rightarrow> nat option" where
  "unsigned_val s =
     (case s of
        [] \<Rightarrow> None
      | ch # rest \<Rightarrow> (case digit_val ch of None \<Rightarrow> None | Some d \<Rightarrow> digits_val d rest))"

definition astype_int :: "string \<Rightarrow> int option" where
  "astype_int label =
     (case strip label of
        [] \<Rightarrow> None
      | ch # rest \<Rightarrow>
          if ch = CHR ''-'' then map_option (\<lambda>n. - int n) (unsigned_val rest)
          else if ch = CHR ''+'' then map_option int (unsigned_val rest)
          else map_option int (unsigned_val (ch # rest)))"

fun astype_int_all :: "string list \<Rightarrow> int list option" where
  "astype_int_all [] = Some []"
| "astype_int_all (label # rest) =
     (case astype_int label of
        None \<Rightarrow> None
      | Some n \<Rightarrow> (case astype_int_all rest of None \<Rightarrow> None | Some ns \<Rightarrow> Some (n # ns)))"

text \<open>\<^verbatim>\<open>np.in1d(ar1, ar2)\<close>: for each element of \<open>ar1\<close>, whether it occurs in \<open>ar2\<close>.\<close>

definition in1d :: "int list \<Rightarrow> int list \<Rightarrow> bool list" where
  "in1d ar1 ar2 = map (\<lambda>p. p \<in> set ar2) ar1"

text \<open>
  \<^verbatim>\<open>eegfile.root.attrs\<close>.  An attribute access on a PyTables group, for a name that is
  not a member of the group object itself, looks for the child node of that name (the
  attributes of the group are reached by \<^verbatim>\<open>_v_attrs\<close>).  The root group of a container
  has no child named \<^verbatim>\<open>attrs\<close>, so the access raises \<^verbatim>\<open>NoSuchNodeError\<close>, and the test
  of \<^verbatim>\<open>by_row\<close> and the selection of the channels that follow it in the source are
  never reached.
\<close>

definition root_attrs :: "container \<Rightarrow> error" where
  "root_attrs eegfile = NoSuchNodeError"

text \<open>
  The builtin \<^verbatim>\<open>len\<close>, applied to its list of arguments (each one \<open>Some n\<close> when it is
  a sequence of \<open>n\<close> elements, \<open>None\<close> when it has no length): it takes exactly one
  argument and raises \<^verbatim>\<open>TypeError\<close> otherwise.
\<close>

definition builtin_len :: "nat option list \<Rightarrow> error + nat" where
  "builtin_len args = (case args of [Some n] \<Rightarrow> Inr n | _ \<Rightarrow> Inl TypeError)"

text \<open>
  The loop over the start offsets of \<^verbatim>\<open>read_hdf5\<close>.  The first statement of its body
  evaluates \<^verbatim>\<open>eegfile.root.attrs\<close>, which raises.
\<close>

fun hdf5_offsets_loop :: "container \<Rightarrow> 64 word list \<Rightarrow> mask \<times> event list
    \<Rightarrow> error \<times> event list + mask \<times> event list" where
  "hdf5_offsets_loop eegfile [] st = Inr st"
| "hdf5_offsets_loop eegfile (start_offset # rest) (read_ok_mask, out) =
     Inl (root_attrs eegfile, out)"

text \<open>
  \<^verbatim>\<open>read_hdf5\<close>.  The container is opened, the labels of the channels are turned into
  numbers and compared with the ports.  With a negative \<^verbatim>\<open>read_size\<close> the next
  statement evaluates \<^verbatim>\<open>eegfile.root.attrs\<close>.  Otherwise the allocation of
  \<^verbatim>\<open>eventdata\<close> evaluates \<^verbatim>\<open>len(self.channels, len(self.start_offsets), self.read_size)\<close>,
  a call of \<^verbatim>\<open>len\<close> with three arguments; were it to return a number \<open>n\<close>,
  \<^verbatim>\<open>np.empty\<close> would allocate \<open>n\<close> elements and the loop would follow.  The reader
  is not changed.
\<close>

definition read_hdf5 :: "filesystem \<Rightarrow> reader
    \<Rightarrow> (error + ndarray \<times> mask) \<times> reader \<times> event list" where
  "read_hdf5 fs self =
     (case h5 fs (dataroot self) of
        None \<Rightarrow> (Inl OSError, self, [])
      | Some eegfile \<Rightarrow>
          (let out = [Open_h5 (dataroot self)]
           in case astype_int_all (channels self) of
                None \<Rightarrow> (Inl ValueError, self, out)
              | Some wanted \<Rightarrow>
                  (let channels_to_read = in1d (ports eegfile) wanted
                   in if read_size self < 0
                      then (Inl (root_attrs eegfile), self, out)
                      else (case builtin_len [Some (length (channels self)), None, None] of
                              Inl err \<Rightarrow> (Inl err, self, out)
                            | Inr n \<Rightarrow>
                                (case hdf5_offsets_loop eegfile (start_offsets self)
                                        (replicate (length (channels self))
                                           (replicate (length (start_offsets self)) True), out) of
                                   Inl (err, out') \<Rightarrow> (Inl err, self, out')
                                 | Inr (read_ok_mask, out') \<Rightarrow>
                                     (Inr (\<lparr>shape = (n, 0, 0), elems = []\<rparr>, read_ok_mask),
                                      self, out'))))))"

subsection \<open>The read operation\<close>

text \<open>
  The labelled array that \<^verbatim>\<open>read\<close> returns: the values, the coordinates of the three
  dimensions \<^verbatim>\<open>channels\<close>, \<^verbatim>\<open>start_offsets\<close> and \<^verbatim>\<open>offsets\<close>, the scalar coordinate
  \<^verbatim>\<open>samplerate\<close>, and the attributes.
\<close>

record DataArray =
  values_of :: ndarray
  coord_channels :: "string list"
  coord_start_offsets :: "64 word list"
  coord_offsets :: "int list"
  coord_samplerate :: pval
  attrs :: "(string \<times> pval) list"

text \<open>\<^verbatim>\<open>np.arange(n)\<close>, which is empty for a negative \<open>n\<close>.\<close>

definition arange :: "int \<Rightarrow> int list" where
  "arange n = map int [0..<nat n]"

text \<open>
  \<^verbatim>\<open>read\<close>: the backend is chosen by the suffix of \<^verbatim>\<open>dataroot\<close>, the array is
  multiplied by \<^verbatim>\<open>params_dict['gain']\<close> (a missing key raises \<^verbatim>\<open>KeyError\<close>, a string
  raises \<^verbatim>\<open>TypeError\<close>) and labelled.  The constructor of \<^verbatim>\<open>DataArray\<close> raises
  \<^verbatim>\<open>ValueError\<close> when a coordinate has not the length of its dimension.
\<close>

definition endswith :: "string \<Rightarrow> string \<Rightarrow> bool" where
  "endswith s suffix = (length suffix \<le> length s \<and> drop (length s - length suffix) s = suffix)"

definition read :: "filesystem \<Rightarrow> reader
    \<Rightarrow> (error + DataArray \<times> mask) \<times> reader \<times> event list" where
  "read fs self =
     (let (res, self', out) =
            (if \<not> endswith (dataroot self) ''h5'' then read_binary fs self
             else read_hdf5 fs self)
      in case res of
           Inl err \<Rightarrow> (Inl err, self', out)
         | Inr (eventdata, read_ok_mask) \<Rightarrow>
             (case map_of (params_dict self') ''gain'' of
                None \<Rightarrow> (Inl KeyError, self', out)
              | Some (PStr _) \<Rightarrow> (Inl TypeError, self', out)
              | Some (PFloat gain) \<Rightarrow>
                  (let eventdata' =
                         eventdata\<lparr>elems := map (map (map (\<lambda>x. fmul x gain))) (elems eventdata)\<rparr>
                   in case map_of (params_dict self') ''samplerate'' of
                        None \<Rightarrow> (Inl KeyError, self', out)
                      | Some samplerate \<Rightarrow>
                          if shape eventdata' \<noteq>
                               (length (channels self'), length (start_offsets self'),
                                length (arange (read_size self')))
                          then (Inl ValueError, self', out)
                          else (Inr (\<lparr>values_of = eventdata',
                                      coord_channels = channels self',
                                      coord_start_offsets = start_offsets self',
                                      coord_offsets = arange (read_size self'),
                                      coord_samplerate = samplerate,
                                      attrs = params_dict self'\<rparr>, read_ok_mask),
                                self', out))))"

subsection \<open>One pass through the body of the offsets loop\<close>

text \<open>
  The outcome of one pass through the body of the loop over the start offsets, read off
  \<open>offsets_loop\<close>: an exception, \<open>None\<close> when the slice is rejected (a negative
  offset, or fewer samples than \<open>rs\<close>), or the decoded samples.
\<close>

definition read_chunk :: "FileFormat \<Rightarrow> nat \<Rightarrow> byte list \<Rightarrow> 64 word \<Rightarrow> error + fl list option" where
  "read_chunk ff rs efile start_offset =
     (if start_offset <s 0 then Inr None
      else
        (let pos = word_of_nat (data_size ff) * start_offset
         in if pos <s 0 then Inl OSError
            else
              (let data = seek_read efile (unat pos) (data_size ff * rs)
               in case struct_unpack (length data div data_size ff) (format_string ff) data of
                    None \<Rightarrow> Inl StructError
                  | Some vals \<Rightarrow> if length vals < rs then Inr None else Inr (Some vals))))"

text \<open>What that pass prints.\<close>

definition chunk_events :: "string \<Rightarrow> 64 word \<Rightarrow> fl list option \<Rightarrow> event list" where
  "chunk_events eegfname start_offset r =
     (case r of
        Some _ \<Rightarrow> []
      | None \<Rightarrow> if start_offset <s 0 then [Print_negative_offset start_offset eegfname]
                else [Print_cannot_read_full_chunk start_offset eegfname])"

text \<open>
  What the pass leaves in the mask and in the array when they start out as allocated
  (\<^verbatim>\<open>True\<close> and not-a-number), and what it prints.
\<close>

definition slice_valid :: "FileFormat \<Rightarrow> nat \<Rightarrow> byte list \<Rightarrow> 64 word \<Rightarrow> bool" where
  "slice_valid ff rs efile off =
     (case read_chunk ff rs efile off of Inr (Some vals) \<Rightarrow> True | _ \<Rightarrow> False)"

definition slice_values :: "FileFormat \<Rightarrow> nat \<Rightarrow> byte list \<Rightarrow> 64 word \<Rightarrow> fl list" where
  "slice_values ff rs efile off =
     (case read_chunk ff rs efile off of Inr (Some vals) \<Rightarrow> vals | _ \<Rightarrow> replicate rs NaN)"

definition slice_events :: "FileFormat \<Rightarrow> nat \<Rightarrow> string \<Rightarrow> byte list \<Rightarrow> 64 word \<Rightarrow> event list" where
  "slice_events ff rs f efile off =
     (case read_chunk ff rs efile off of Inr r \<Rightarrow> chunk_events f off r | Inl _ \<Rightarrow> [])"

text \<open>
  Every file of the request exists and no pass through the loop body raises: the
  condition under which the loops run to their end.
\<close>

definition readable :: "filesystem \<Rightarrow> reader \<Rightarrow> bool" where
  "readable fs self =
     list_all (\<lambda>channel.
        case flat fs (eegfname_of self channel) of
          None \<Rightarrow> False
        | Some efile \<Rightarrow>
            list_all (\<lambda>off. case read_chunk (file_format self) (nat (read_size self)) efile off of
                              Inl _ \<Rightarrow> False | Inr _ \<Rightarrow> True)
              (start_offsets self))
       (channels self)"

text \<open>
  The array, the mask and the events of a binary read whose loops run to their end,
  slice by slice.
\<close>

definition binary_tensor :: "filesystem \<Rightarrow> reader \<Rightarrow> tensor" where
  "binary_tensor fs self =
     map (\<lambda>channel. map (slice_values (file_format self) (nat (read_size self))
                              (the (flat fs (eegfname_of self channel))))
                        (start_offsets self))
       (channels self)"

definition binary_mask :: "filesystem \<Rightarrow> reader \<Rightarrow> mask" where
  "binary_mask fs self =
     map (\<lambda>channel. map (slice_valid (file_format self) (nat (read_size self))
                              (the (flat fs (eegfname_of self channel))))
                        (start_offsets self))
       (channels self)"

definition binary_events :: "filesystem \<Rightarrow> reader \<Rightarrow> event list" where
  "binary_events fs self =
     concat (map (\<lambda>channel. Open (eegfname_of self channel) #
                    concat (map (slice_events (file_format self) (nat (read_size self))
                                   (eegfname_of self channel)
                                   (the (flat fs (eegfname_of self channel))))
                              (start_offsets self)))
               (channels self))"

text \<open>
  The reader as the first two lines of \<^verbatim>\<open>read_binary\<close> leave it: with the read size
  derived from the size of the first channel's file when it was negative; \<open>None\<close> when
  \<^verbatim>\<open>get_file_size\<close> raises.
\<close>

definition resolved_reader :: "filesystem \<Rightarrow> reader \<Rightarrow> reader option" where
  "resolved_reader fs self =
     (if read_size self < 0
      then (case fst (get_file_size fs self) of
              Inl _ \<Rightarrow> None
            | Inr sz \<Rightarrow> Some (self\<lparr>read_size := int (sz div data_size (file_format self))\<rparr>))
      else Some self)"

text \<open>The request without its negative start offsets, and the entries of a row of the
  result that belong to the offsets that are not negative.\<close>

definition without_negative :: "reader \<Rightarrow> reader" where
  "without_negative self =
     self\<lparr>start_offsets := filter (\<lambda>off. \<not> off <s 0) (start_offsets self)\<rparr>"

definition at_kept :: "64 word list \<Rightarrow> 'a list \<Rightarrow> 'a list" where
  "at_kept offs row = map snd (filter (\<lambda>(off, x). \<not> off <s 0) (zip offs row))"

text \<open>The events that are calls of \<^verbatim>\<open>os.path.getsize\<close>, and the events that a loop
  leaves behind, whether it ends or raises.\<close>

fun is_Getsize :: "event \<Rightarrow> bool" where
  "is_Getsize (Getsize f) = True"
| "is_Getsize e = False"

definition loop_events :: "error \<times> event list + arrays \<Rightarrow> event list" where
  "loop_events r = (case r of Inl (err, out) \<Rightarrow> out | Inr (ed, mk, out) \<Rightarrow> out)"

text \<open>
  What \<^verbatim>\<open>read\<close> does with the result of the backend, given the reader as the backend
  left it: the multiplication by the gain and the labelling, read off \<open>read\<close>.
\<close>

definition assemble :: "reader \<Rightarrow> error + ndarray \<times> mask \<Rightarrow> error + DataArray \<times> mask" where
  "assemble self' res =
     (case res of
        Inl err \<Rightarrow> Inl err
      | Inr (eventdata, read_ok_mask) \<Rightarrow>
          (case map_of (params_dict self') ''gain'' of
             None \<Rightarrow> Inl KeyError
           | Some (PStr _) \<Rightarrow> Inl TypeError
           | Some (PFloat gain) \<Rightarrow>
               (case map_of (params_dict self') ''samplerate'' of
                  None \<Rightarrow> Inl KeyError
                | Some samplerate \<Rightarrow>
                    if shape eventdata \<noteq>
                         (length (channels self'), length (start_offsets self'),
                          length (arange (read_size self')))
                    then Inl ValueError
                    else Inr (\<lparr>values_of =
                                 eventdata\<lparr>elems := map (map (map (\<lambda>x. fmul x gain)))
                                                        (elems eventdata)\<rparr>,
                               coord_channels = channels self',
                               coord_start_offsets = start_offsets self',
                               coord_offsets = arange (read_size self'),
                               coord_samplerate = samplerate,
                               attrs = params_dict self'\<rparr>, read_ok_mask))))"

subsection \<open>The scenario of the specification\<close>

text \<open>
  One channel file \<^verbatim>\<open>root.001\<close> with the eight little-endian 16-bit samples 1 to 8,
  a gain of 2, and the reader that the constructor builds for it.
\<close>

definition samples_1_to_8 :: "byte list" where
  "samples_1_to_8 = [1, 0, 2, 0, 3, 0, 4, 0, 5, 0, 6, 0, 7, 0, 8, 0]"

definition scenario_fs :: filesystem where
  "scenario_fs = \<lparr>flat = (\<lambda>f. if f = ''root.001'' then Some samples_1_to_8 else None),
                   h5 = (\<lambda>f. None)\<rparr>"

definition scenario_params :: "(string \<times> pval) list" where
  "scenario_params = [(''format'', PStr ''int16''), (''gain'', PFloat (Fin 2)),
                      (''samplerate'', PFloat (Fin 500))]"

definition scenario_reader :: "64 word list \<Rightarrow> int \<Rightarrow> reader" where
  "scenario_reader offs rs =
     \<lparr>dataroot = ''root'', channels = [''001''], start_offsets = offs, read_size = rs,
      file_format = \<lparr>data_size = 2, format_string = ''h''\<rparr>, params_dict = scenario_params\<rparr>"

text \<open>The file of the scenario with one more byte, so that it does not hold whole samples.\<close>

definition odd_fs :: filesystem where
  "odd_fs = \<lparr>flat = (\<lambda>f. if f = ''root.001'' then Some (samples_1_to_8 @ [9]) else None),
               h5 = (\<lambda>f. None)\<rparr>"

text \<open>A file of one 32-bit float that is not a number, read in the format \<^verbatim>\<open>single\<close>.\<close>

definition nan_fs :: filesystem where
  "nan_fs = \<lparr>flat = (\<lambda>f. if f = ''root.001'' then Some [0, 0, 0xC0, 0x7F] else None),
               h5 = (\<lambda>f. None)\<rparr>"

definition float_reader :: reader where
  "float_reader =
     \<lparr>dataroot = ''root'', channels = [''001''], start_offsets = [0], read_size = 1,
      file_format = \<lparr>data_size = 4, format_string = ''f''\<rparr>,
      params_dict = [(''format'', PStr ''single''), (''gain'', PFloat (Fin 2)),
                     (''samplerate'', PFloat (Fin 500))]\<rparr>"

text \<open>
  A container \<^verbatim>\<open>root.h5\<close> with the ports 1 and 2, three samples for each, laid out
  with the channel as the first axis, and a reader for it.
\<close>

definition scenario_container :: container where
  "scenario_container =
     \<lparr>timeseries_shape = (2, 3),
      eeg_timeseries = [[Fin 1, Fin 2, Fin 3], [Fin 4, Fin 5, Fin 6]],
      ports = [1, 2], by_row = None\<rparr>"

definition h5_fs :: filesystem where
  "h5_fs = \<lparr>flat = (\<lambda>f. None),
              h5 = (\<lambda>f. if f = ''root.h5'' then Some scenario_container else None)\<rparr>"

definition h5_reader :: "string list \<Rightarrow> 64 word list \<Rightarrow> int \<Rightarrow> reader" where
  "h5_reader chans offs rs =
     \<lparr>dataroot = ''root.h5'', channels = chans, start_offsets = offs, read_size = rs,
      file_format = \<lparr>data_size = 2, format_string = ''h''\<rparr>, params_dict = scenario_params\<rparr>"

section \<open>Properties\<close>

subsection \<open>Evaluation on concrete inputs\<close>

lemma replicate_numeral: "replicate (numeral n) x = x # replicate (pred_numeral n) x"
  by (simp add: numeral_eq_Suc)

lemma chunks_numeral [simp]:
  "chunks k (numeral n) xs = take k xs # chunks k (pred_numeral n) (drop k xs)"
  by (simp add: numeral_eq_Suc)

lemmas eval_defs = read_def read_binary_def read_binary_resolved_def get_file_size_def
  eegfname_of_def channels_loop.simps
  scenario_fs_def scenario_reader_def scenario_params_def samples_1_to_8_def
  endswith_def struct_unpack_def calcsize_def unpack_item_def signed_def arange_def seek_read_def
  offsets_loop.simps Let_def word_sless_alt replicate_numeral

lemma init_scenario:
  "init ''root'' [''001''] offs rs scenario_params = (Inr (scenario_reader offs rs), [])"
  by (simp add: init_def scenario_params_def scenario_reader_def lookup_format_def
        file_format_dict_def)

subsection \<open>The loop over the start offsets\<close>

lemma offsets_loop_Cons:
  "offsets_loop ff rs f efile c e (off # rest) (ed, mk, out) =
     (case read_chunk ff rs efile off of
        Inl err \<Rightarrow> Inl (err, out)
      | Inr None \<Rightarrow> offsets_loop ff rs f efile c (Suc e) rest
                     (ed, mk[c := (mk ! c)[e := False]], out @ chunk_events f off None)
      | Inr (Some vals) \<Rightarrow> offsets_loop ff rs f efile c (Suc e) rest
                     (ed[c := (ed ! c)[e := vals]], mk, out))"
  by (simp add: read_chunk_def chunk_events_def Let_def split: option.splits)

declare offsets_loop.simps(2) [simp del]

lemma offsets_loop_length:
  "offsets_loop ff rs f efile c e offs (ed, mk, out) = Inr (ed', mk', out') \<Longrightarrow>
   length ed' = length ed \<and> length mk' = length mk"
  by (induction offs arbitrary: e ed mk out)
     (auto simp: offsets_loop_Cons split: sum.splits option.splits)

lemma offsets_loop_other_rows:
  "offsets_loop ff rs f efile c e offs (ed, mk, out) = Inr (ed', mk', out') \<Longrightarrow> c' \<noteq> c \<Longrightarrow>
   ed' ! c' = ed ! c' \<and> mk' ! c' = mk ! c'"
  by (induction offs arbitrary: e ed mk out)
     (auto simp: offsets_loop_Cons split: sum.splits option.splits)

lemma offsets_loop_row_length:
  "offsets_loop ff rs f efile c e offs (ed, mk, out) = Inr (ed', mk', out') \<Longrightarrow>
   c < length ed \<Longrightarrow> c < length mk \<Longrightarrow>
   length (ed' ! c) = length (ed ! c) \<and> length (mk' ! c) = length (mk ! c)"
  by (induction offs arbitrary: e ed mk out)
     (auto simp: offsets_loop_Cons split: sum.splits option.splits)

lemma offsets_loop_untouched:
  "offsets_loop ff rs f efile c e offs (ed, mk, out) = Inr (ed', mk', out') \<Longrightarrow>
   c < length ed \<Longrightarrow> c < length mk \<Longrightarrow> i < e \<Longrightarrow>
   ed' ! c ! i = ed ! c ! i \<and> mk' ! c ! i = mk ! c ! i"
  by (induction offs arbitrary: e ed mk out)
     (auto simp: offsets_loop_Cons split: sum.splits option.splits)

lemma offsets_loop_chunks:
  "offsets_loop ff rs f efile c e offs (ed, mk, out) = Inr (ed', mk', out') \<Longrightarrow>
   c < length ed \<Longrightarrow> c < length mk \<Longrightarrow>
   e + length offs \<le> length (ed ! c) \<Longrightarrow> e + length offs \<le> length (mk ! c) \<Longrightarrow>
   i < length offs \<Longrightarrow>
   \<exists>r. read_chunk ff rs efile (offs ! i) = Inr r
       \<and> ed' ! c ! (e + i) = (case r of Some vals \<Rightarrow> vals | None \<Rightarrow> ed ! c ! (e + i))
       \<and> mk' ! c ! (e + i) = (case r of Some vals \<Rightarrow> mk ! c ! (e + i) | None \<Rightarrow> False)"
proof (induction offs arbitrary: e ed mk out i)
  case Nil
  then show ?case by simp
next
  case (Cons off rest)
  from Cons.prems(1) obtain r where r: "read_chunk ff rs efile off = Inr r"
    by (cases "read_chunk ff rs efile off") (auto simp: offsets_loop_Cons)
  define ed1 where "ed1 = (case r of Some vals \<Rightarrow> ed[c := (ed ! c)[e := vals]] | None \<Rightarrow> ed)"
  define mk1 where "mk1 = (case r of Some vals \<Rightarrow> mk | None \<Rightarrow> mk[c := (mk ! c)[e := False]])"
  define out1 where "out1 = out @ chunk_events f off r"
  have run: "offsets_loop ff rs f efile c (Suc e) rest (ed1, mk1, out1) = Inr (ed', mk', out')"
    using Cons.prems(1) r
    by (cases r) (simp_all add: offsets_loop_Cons ed1_def mk1_def out1_def chunk_events_def)
  have c1: "c < length ed1" "c < length mk1"
    using Cons.prems(2,3) by (cases r; simp add: ed1_def mk1_def)+
  have len1: "length (ed1 ! c) = length (ed ! c)" "length (mk1 ! c) = length (mk ! c)"
    using Cons.prems(2,3) by (cases r; simp add: ed1_def mk1_def)+
  have e_lt: "e < length (ed ! c)" "e < length (mk ! c)"
    using Cons.prems(4,5) by simp_all
  have at_e: "ed1 ! c ! e = (case r of Some vals \<Rightarrow> vals | None \<Rightarrow> ed ! c ! e)"
       "mk1 ! c ! e = (case r of Some vals \<Rightarrow> mk ! c ! e | None \<Rightarrow> False)"
    using Cons.prems(2,3) e_lt by (cases r; simp add: ed1_def mk1_def)+
  have off_e: "\<And>k. k \<noteq> e \<Longrightarrow> ed1 ! c ! k = ed ! c ! k \<and> mk1 ! c ! k = mk ! c ! k"
    using Cons.prems(2,3) by (cases r) (simp_all add: ed1_def mk1_def)
  show ?case
  proof (cases i)
    case 0
    have "ed' ! c ! e = ed1 ! c ! e \<and> mk' ! c ! e = mk1 ! c ! e"
      using offsets_loop_untouched [OF run c1, of e] by simp
    then show ?thesis using 0 r at_e by (cases r) simp_all
  next
    case (Suc j)
    with Cons.prems(6) have j: "j < length rest" by simp
    have "\<exists>r. read_chunk ff rs efile (rest ! j) = Inr r
       \<and> ed' ! c ! (Suc e + j) = (case r of Some vals \<Rightarrow> vals | None \<Rightarrow> ed1 ! c ! (Suc e + j))
       \<and> mk' ! c ! (Suc e + j) = (case r of Some vals \<Rightarrow> mk1 ! c ! (Suc e + j) | None \<Rightarrow> False)"
      using Cons.prems(4,5) len1 by (intro Cons.IH [OF run c1 _ _ j]) simp_all
    then obtain r' where r': "read_chunk ff rs efile (rest ! j) = Inr r'"
       "ed' ! c ! (Suc e + j) = (case r' of Some vals \<Rightarrow> vals | None \<Rightarrow> ed1 ! c ! (Suc e + j))"
       "mk' ! c ! (Suc e + j) = (case r' of Some vals \<Rightarrow> mk1 ! c ! (Suc e + j) | None \<Rightarrow> False)"
      by blast
    have "ed1 ! c ! (Suc e + j) = ed ! c ! (Suc e + j) \<and> mk1 ! c ! (Suc e + j) = mk ! c ! (Suc e + j)"
      by (rule off_e) simp
    then show ?thesis using Suc r' by (cases r') simp_all
  qed
qed

lemma offsets_loop_events:
  "offsets_loop ff rs f efile c e offs (ed, mk, out) = Inr (ed', mk', out') \<Longrightarrow>
   out' = out @ concat (map (\<lambda>off. case read_chunk ff rs efile off of
                                     Inr r \<Rightarrow> chunk_events f off r | Inl _ \<Rightarrow> []) offs)"
proof (induction offs arbitrary: e ed mk out)
  case Nil
  then show ?case by simp
next
  case (Cons off rest)
  from Cons.prems(1) obtain r where r: "read_chunk ff rs efile off = Inr r"
    by (cases "read_chunk ff rs efile off") (auto simp: offsets_loop_Cons)
  define ed1 where "ed1 = (case r of Some vals \<Rightarrow> ed[c := (ed ! c)[e := vals]] | None \<Rightarrow> ed)"
  define mk1 where "mk1 = (case r of Some vals \<Rightarrow> mk | None \<Rightarrow> mk[c := (mk ! c)[e := False]])"
  have run: "offsets_loop ff rs f efile c (Suc e) rest (ed1, mk1, out @ chunk_events f off r)
               = Inr (ed', mk', out')"
    using Cons.prems(1) r
    by (cases r) (simp_all add: offsets_loop_Cons ed1_def mk1_def chunk_events_def)
  show ?case using Cons.IH [OF run] r by simp
qed

lemma offsets_loop_fresh_row:
  assumes run: "offsets_loop ff rs f efile c 0 offs (ed, mk, out) = Inr (ed', mk', out')"
    and c: "c < length ed" "c < length mk"
    and fresh: "ed ! c = replicate (length offs) (replicate rs NaN)"
               "mk ! c = replicate (length offs) True"
  shows "ed' ! c = map (slice_values ff rs efile) offs"
    and "mk' ! c = map (slice_valid ff rs efile) offs"
    and "\<forall>off \<in> set offs. \<exists>r. read_chunk ff rs efile off = Inr r"
proof -
  have len: "length (ed' ! c) = length offs" "length (mk' ! c) = length offs"
    using offsets_loop_row_length [OF run c] fresh by simp_all
  have pt: "\<exists>r. read_chunk ff rs efile (offs ! i) = Inr r
       \<and> ed' ! c ! i = (case r of Some vals \<Rightarrow> vals | None \<Rightarrow> replicate rs NaN)
       \<and> mk' ! c ! i = (case r of Some vals \<Rightarrow> True | None \<Rightarrow> False)" if "i < length offs" for i
    using offsets_loop_chunks [OF run c _ _ that] fresh that
    by (auto split: option.splits)
  show "ed' ! c = map (slice_values ff rs efile) offs"
  proof (rule nth_equalityI)
    show "length (ed' ! c) = length (map (slice_values ff rs efile) offs)" using len by simp
  next
    fix i assume "i < length (ed' ! c)"
    then have i: "i < length offs" using len by simp
    from pt [OF i] show "ed' ! c ! i = map (slice_values ff rs efile) offs ! i"
      using i by (auto simp: slice_values_def split: option.splits)
  qed
  show "mk' ! c = map (slice_valid ff rs efile) offs"
  proof (rule nth_equalityI)
    show "length (mk' ! c) = length (map (slice_valid ff rs efile) offs)" using len by simp
  next
    fix i assume "i < length (mk' ! c)"
    then have i: "i < length offs" using len by simp
    from pt [OF i] show "mk' ! c ! i = map (slice_valid ff rs efile) offs ! i"
      using i by (auto simp: slice_valid_def split: option.splits)
  qed
  show "\<forall>off \<in> set offs. \<exists>r. read_chunk ff rs efile off = Inr r"
  proof
    fix off assume "off \<in> set offs"
    then obtain i where "i < length offs" "offs ! i = off" by (auto simp: in_set_conv_nth)
    with pt [of i] show "\<exists>r. read_chunk ff rs efile off = Inr r" by auto
  qed
qed

lemma offsets_loop_succeeds:
  "\<forall>off \<in> set offs. \<exists>r. read_chunk ff rs efile off = Inr r \<Longrightarrow>
   \<exists>ed' mk' out'. offsets_loop ff rs f efile c e offs (ed, mk, out) = Inr (ed', mk', out')"
proof (induction offs arbitrary: e ed mk out)
  case Nil
  then show ?case by simp
next
  case (Cons off rest)
  then obtain r where r: "read_chunk ff rs efile off = Inr r" by auto
  from Cons.prems have rest: "\<forall>off \<in> set rest. \<exists>r. read_chunk ff rs efile off = Inr r" by simp
  show ?case using r Cons.IH [OF rest] by (cases r) (simp_all add: offsets_loop_Cons)
qed

lemma offsets_loop_out:
  "offsets_loop ff rs f efile c e offs (ed, mk, out) =
     (case offsets_loop ff rs f efile c e offs (ed, mk, []) of
        Inl (err, out') \<Rightarrow> Inl (err, out @ out')
      | Inr (ed', mk', out') \<Rightarrow> Inr (ed', mk', out @ out'))"
proof (induction offs arbitrary: e ed mk out)
  case Nil
  then show ?case by simp
next
  case (Cons off rest)
  show ?case
  proof (cases "read_chunk ff rs efile off")
    case (Inl err)
    then show ?thesis by (simp add: offsets_loop_Cons)
  next
    case (Inr r)
    show ?thesis
    proof (cases r)
      case None
      show ?thesis
        using Inr None
        by (simp add: offsets_loop_Cons Cons.IH [of _ _ _ "out @ chunk_events f off None"]
              Cons.IH [of _ _ _ "chunk_events f off None"] split: sum.splits)
    next
      case (Some vals)
      show ?thesis
        using Inr Some by (simp add: offsets_loop_Cons Cons.IH [of _ _ _ out] split: sum.splits)
    qed
  qed
qed

subsection \<open>The loop over the channels\<close>

lemma channels_loop_Cons:
  "channels_loop fs self c (channel # rest) (ed, mk, out) =
     (case flat fs (eegfname_of self channel) of
        None \<Rightarrow> Inl (OSError, out)
      | Some efile \<Rightarrow>
          (case offsets_loop (file_format self) (nat (read_size self)) (eegfname_of self channel)
                  efile c 0 (start_offsets self) (ed, mk, out @ [Open (eegfname_of self channel)]) of
             Inl x \<Rightarrow> Inl x
           | Inr st \<Rightarrow> channels_loop fs self (Suc c) rest st))"
  by (simp add: Let_def)

declare channels_loop.simps(2) [simp del]

lemma channels_loop_length:
  "channels_loop fs self c chans (ed, mk, out) = Inr (ed', mk', out') \<Longrightarrow>
   length ed' = length ed \<and> length mk' = length mk"
proof (induction chans arbitrary: c ed mk out)
  case Nil
  then show ?case by simp
next
  case (Cons channel rest)
  from Cons.prems obtain efile ed1 mk1 out1 where
    run1: "offsets_loop (file_format self) (nat (read_size self)) (eegfname_of self channel)
             efile c 0 (start_offsets self) (ed, mk, out @ [Open (eegfname_of self channel)])
           = Inr (ed1, mk1, out1)"
    and run2: "channels_loop fs self (Suc c) rest (ed1, mk1, out1) = Inr (ed', mk', out')"
    by (auto simp: channels_loop_Cons split: option.splits sum.splits)
  show ?case using Cons.IH [OF run2] offsets_loop_length [OF run1] by simp
qed

lemma channels_loop_before:
  "channels_loop fs self c chans (ed, mk, out) = Inr (ed', mk', out') \<Longrightarrow> k < c \<Longrightarrow>
   ed' ! k = ed ! k \<and> mk' ! k = mk ! k"
proof (induction chans arbitrary: c ed mk out)
  case Nil
  then show ?case by simp
next
  case (Cons channel rest)
  from Cons.prems(1) obtain efile ed1 mk1 out1 where
    run1: "offsets_loop (file_format self) (nat (read_size self)) (eegfname_of self channel)
             efile c 0 (start_offsets self) (ed, mk, out @ [Open (eegfname_of self channel)])
           = Inr (ed1, mk1, out1)"
    and run2: "channels_loop fs self (Suc c) rest (ed1, mk1, out1) = Inr (ed', mk', out')"
    by (auto simp: channels_loop_Cons split: option.splits sum.splits)
  have "ed' ! k = ed1 ! k \<and> mk' ! k = mk1 ! k"
    using Cons.IH [OF run2] Cons.prems(2) by simp
  moreover have "ed1 ! k = ed ! k \<and> mk1 ! k = mk ! k"
    using offsets_loop_other_rows [OF run1, of k] Cons.prems(2) by simp
  ultimately show ?case by simp
qed

lemma channels_loop_rows:
  assumes "channels_loop fs self c chans (ed, mk, out) = Inr (ed', mk', out')"
    and "c + length chans \<le> length ed" and "c + length chans \<le> length mk"
    and "\<forall>k. c \<le> k \<and> k < c + length chans \<longrightarrow>
           ed ! k = replicate (length (start_offsets self)) (replicate (nat (read_size self)) NaN)
         \<and> mk ! k = replicate (length (start_offsets self)) True"
    and "j < length chans"
  shows "\<exists>efile. flat fs (eegfname_of self (chans ! j)) = Some efile
       \<and> ed' ! (c + j) = map (slice_values (file_format self) (nat (read_size self)) efile)
                            (start_offsets self)
       \<and> mk' ! (c + j) = map (slice_valid (file_format self) (nat (read_size self)) efile)
                            (start_offsets self)
       \<and> (\<forall>off \<in> set (start_offsets self).
             \<exists>r. read_chunk (file_format self) (nat (read_size self)) efile off = Inr r)"
  using assms
proof (induction chans arbitrary: c ed mk out j)
  case Nil
  then show ?case by simp
next
  case (Cons channel rest)
  from Cons.prems(1) obtain efile ed1 mk1 out1 where
    efile: "flat fs (eegfname_of self channel) = Some efile" and
    run1: "offsets_loop (file_format self) (nat (read_size self)) (eegfname_of self channel)
             efile c 0 (start_offsets self) (ed, mk, out @ [Open (eegfname_of self channel)])
           = Inr (ed1, mk1, out1)"
    and run2: "channels_loop fs self (Suc c) rest (ed1, mk1, out1) = Inr (ed', mk', out')"
    by (auto simp: channels_loop_Cons split: option.splits sum.splits)
  have c: "c < length ed" "c < length mk" using Cons.prems(2,3) by simp_all
  have fresh_c: "ed ! c = replicate (length (start_offsets self)) (replicate (nat (read_size self)) NaN)"
                "mk ! c = replicate (length (start_offsets self)) True"
    using Cons.prems(4) by simp_all
  note row = offsets_loop_fresh_row [OF run1 c fresh_c]
  have len1: "length ed1 = length ed" "length mk1 = length mk"
    using offsets_loop_length [OF run1] by simp_all
  show ?case
  proof (cases j)
    case 0
    have "ed' ! c = ed1 ! c \<and> mk' ! c = mk1 ! c"
      using channels_loop_before [OF run2, of c] by simp
    then show ?thesis using 0 efile row by simp
  next
    case (Suc j')
    have fresh1: "\<forall>k. Suc c \<le> k \<and> k < Suc c + length rest \<longrightarrow>
           ed1 ! k = replicate (length (start_offsets self)) (replicate (nat (read_size self)) NaN)
         \<and> mk1 ! k = replicate (length (start_offsets self)) True"
    proof (intro allI impI)
      fix k assume k: "Suc c \<le> k \<and> k < Suc c + length rest"
      then have "k \<noteq> c" by simp
      from offsets_loop_other_rows [OF run1 this] Cons.prems(4) k
      show "ed1 ! k = replicate (length (start_offsets self)) (replicate (nat (read_size self)) NaN)
         \<and> mk1 ! k = replicate (length (start_offsets self)) True" by simp
    qed
    have j': "j' < length rest" using Suc Cons.prems(5) by simp
    have "Suc c + length rest \<le> length ed1" "Suc c + length rest \<le> length mk1"
      using Cons.prems(2,3) len1 by simp_all
    from Cons.IH [OF run2 this fresh1 j'] show ?thesis using Suc by simp
  qed
qed

lemma channels_loop_events:
  "channels_loop fs self c chans (ed, mk, out) = Inr (ed', mk', out') \<Longrightarrow>
   out' = out @ concat (map (\<lambda>channel. Open (eegfname_of self channel) #
            concat (map (slice_events (file_format self) (nat (read_size self))
                           (eegfname_of self channel)
                           (the (flat fs (eegfname_of self channel))))
                      (start_offsets self))) chans)"
proof (induction chans arbitrary: c ed mk out)
  case Nil
  then show ?case by simp
next
  case (Cons channel rest)
  from Cons.prems(1) obtain efile ed1 mk1 out1 where
    efile: "flat fs (eegfname_of self channel) = Some efile" and
    run1: "offsets_loop (file_format self) (nat (read_size self)) (eegfname_of self channel)
             efile c 0 (start_offsets self) (ed, mk, out @ [Open (eegfname_of self channel)])
           = Inr (ed1, mk1, out1)"
    and run2: "channels_loop fs self (Suc c) rest (ed1, mk1, out1) = Inr (ed', mk', out')"
    by (auto simp: channels_loop_Cons split: option.splits sum.splits)
  have "out1 = (out @ [Open (eegfname_of self channel)]) @
          concat (map (slice_events (file_format self) (nat (read_size self))
                         (eegfname_of self channel) efile) (start_offsets self))"
    using offsets_loop_events [OF run1] by (simp add: slice_events_def [abs_def])
  with Cons.IH [OF run2] efile show ?case by simp
qed

lemma channels_loop_succeeds:
  assumes "list_all (\<lambda>channel.
        case flat fs (eegfname_of self channel) of
          None \<Rightarrow> False
        | Some efile \<Rightarrow>
            list_all (\<lambda>off. case read_chunk (file_format self) (nat (read_size self)) efile off of
                              Inl _ \<Rightarrow> False | Inr _ \<Rightarrow> True)
              (start_offsets self)) chans"
  shows "\<exists>ed' mk' out'. channels_loop fs self c chans (ed, mk, out) = Inr (ed', mk', out')"
  using assms
proof (induction chans arbitrary: c ed mk out)
  case Nil
  then show ?case by simp
next
  case (Cons channel rest)
  from Cons.prems obtain efile where efile: "flat fs (eegfname_of self channel) = Some efile"
    and ok: "list_all (\<lambda>off. case read_chunk (file_format self) (nat (read_size self)) efile off of
                              Inl _ \<Rightarrow> False | Inr _ \<Rightarrow> True) (start_offsets self)"
    by (auto split: option.splits)
  have "\<forall>off \<in> set (start_offsets self).
      \<exists>r. read_chunk (file_format self) (nat (read_size self)) efile off = Inr r"
  proof
    fix off assume "off \<in> set (start_offsets self)"
    with ok show "\<exists>r. read_chunk (file_format self) (nat (read_size self)) efile off = Inr r"
      by (cases "read_chunk (file_format self) (nat (read_size self)) efile off")
         (auto simp: list_all_iff)
  qed
  from offsets_loop_succeeds [OF this] obtain ed1 mk1 out1 where
    run1: "offsets_loop (file_format self) (nat (read_size self)) (eegfname_of self channel)
             efile c 0 (start_offsets self) (ed, mk, out @ [Open (eegfname_of self channel)])
           = Inr (ed1, mk1, out1)"
    by blast
  from Cons.prems have "list_all (\<lambda>channel.
        case flat fs (eegfname_of self channel) of
          None \<Rightarrow> False
        | Some efile \<Rightarrow>
            list_all (\<lambda>off. case read_chunk (file_format self) (nat (read_size self)) efile off of
                              Inl _ \<Rightarrow> False | Inr _ \<Rightarrow> True)
              (start_offsets self)) rest" by simp
  from Cons.IH [OF this, of "Suc c" ed1 mk1 out1] efile run1
  show ?case by (simp add: channels_loop_Cons)
qed

lemma channels_loop_out:
  "channels_loop fs self c chans (ed, mk, out) =
     (case channels_loop fs self c chans (ed, mk, []) of
        Inl (err, out') \<Rightarrow> Inl (err, out @ out')
      | Inr (ed', mk', out') \<Rightarrow> Inr (ed', mk', out @ out'))"
proof (induction chans arbitrary: c ed mk out)
  case Nil
  then show ?case by simp
next
  case (Cons channel rest)
  show ?case
  proof (cases "flat fs (eegfname_of self channel)")
    case None
    then show ?thesis by (simp add: channels_loop_Cons)
  next
    case (Some efile)
    let ?f = "eegfname_of self channel"
    let ?run = "offsets_loop (file_format self) (nat (read_size self)) ?f efile c 0
                  (start_offsets self) (ed, mk, [])"
    have a: "offsets_loop (file_format self) (nat (read_size self)) ?f efile c 0
               (start_offsets self) (ed, mk, out @ [Open ?f]) =
             (case ?run of Inl (err, out') \<Rightarrow> Inl (err, (out @ [Open ?f]) @ out')
                         | Inr (ed', mk', out') \<Rightarrow> Inr (ed', mk', (out @ [Open ?f]) @ out'))"
      by (rule offsets_loop_out)
    have b: "offsets_loop (file_format self) (nat (read_size self)) ?f efile c 0
               (start_offsets self) (ed, mk, [Open ?f]) =
             (case ?run of Inl (err, out') \<Rightarrow> Inl (err, [Open ?f] @ out')
                         | Inr (ed', mk', out') \<Rightarrow> Inr (ed', mk', [Open ?f] @ out'))"
      by (rule offsets_loop_out)
    show ?thesis
    proof (cases ?run)
      case (Inl x)
      then show ?thesis using Some a b by (cases x) (simp add: channels_loop_Cons)
    next
      case (Inr st)
      obtain ed1 mk1 out1 where st: "st = (ed1, mk1, out1)" by (cases st)
      have c1: "channels_loop fs self (Suc c) rest (ed1, mk1, (out @ [Open ?f]) @ out1) =
          (case channels_loop fs self (Suc c) rest (ed1, mk1, []) of
             Inl (err, out') \<Rightarrow> Inl (err, ((out @ [Open ?f]) @ out1) @ out')
           | Inr (ed', mk', out') \<Rightarrow> Inr (ed', mk', ((out @ [Open ?f]) @ out1) @ out'))"
        by (rule Cons.IH)
      have c2: "channels_loop fs self (Suc c) rest (ed1, mk1, [Open ?f] @ out1) =
          (case channels_loop fs self (Suc c) rest (ed1, mk1, []) of
             Inl (err, out') \<Rightarrow> Inl (err, ([Open ?f] @ out1) @ out')
           | Inr (ed', mk', out') \<Rightarrow> Inr (ed', mk', ([Open ?f] @ out1) @ out'))"
        by (rule Cons.IH)
      show ?thesis
        using Some a b Inr st c1 c2
        by (simp add: channels_loop_Cons split: sum.splits)
    qed
  qed
qed

subsection \<open>The binary backend as a whole\<close>

lemma read_binary_resolved_rows:
  assumes run: "channels_loop fs self 0 (channels self)
                  (replicate (length (channels self))
                     (replicate (length (start_offsets self)) (replicate (nat (read_size self)) NaN)),
                   replicate (length (channels self)) (replicate (length (start_offsets self)) True),
                   out) = Inr (ed', mk', out')"
  shows "ed' = binary_tensor fs self" and "mk' = binary_mask fs self"
    and "out' = out @ binary_events fs self" and "readable fs self"
proof -
  let ?ed = "replicate (length (channels self))
               (replicate (length (start_offsets self)) (replicate (nat (read_size self)) NaN))"
  let ?mk = "replicate (length (channels self)) (replicate (length (start_offsets self)) True)"
  have len: "length ed' = length (channels self)" "length mk' = length (channels self)"
    using channels_loop_length [OF run] by simp_all
  have row: "\<exists>efile. flat fs (eegfname_of self (channels self ! j)) = Some efile
       \<and> ed' ! j = map (slice_values (file_format self) (nat (read_size self)) efile)
                            (start_offsets self)
       \<and> mk' ! j = map (slice_valid (file_format self) (nat (read_size self)) efile)
                            (start_offsets self)
       \<and> (\<forall>off \<in> set (start_offsets self).
             \<exists>r. read_chunk (file_format self) (nat (read_size self)) efile off = Inr r)"
    if "j < length (channels self)" for j
    using channels_loop_rows [OF run _ _ _ that] by simp
  show "ed' = binary_tensor fs self"
  proof (rule nth_equalityI)
    show "length ed' = length (binary_tensor fs self)" using len by (simp add: binary_tensor_def)
  next
    fix j assume "j < length ed'"
    then have j: "j < length (channels self)" using len by simp
    from row [OF j] show "ed' ! j = binary_tensor fs self ! j"
      using j by (auto simp: binary_tensor_def)
  qed
  show "mk' = binary_mask fs self"
  proof (rule nth_equalityI)
    show "length mk' = length (binary_mask fs self)" using len by (simp add: binary_mask_def)
  next
    fix j assume "j < length mk'"
    then have j: "j < length (channels self)" using len by simp
    from row [OF j] show "mk' ! j = binary_mask fs self ! j"
      using j by (auto simp: binary_mask_def)
  qed
  show "out' = out @ binary_events fs self"
    using channels_loop_events [OF run] by (simp add: binary_events_def)
  show "readable fs self"
    unfolding readable_def list_all_iff
  proof
    fix channel assume "channel \<in> set (channels self)"
    then obtain j where j: "j < length (channels self)" "channels self ! j = channel"
      by (auto simp: in_set_conv_nth)
    from row [OF j(1)] j(2)
    show "case flat fs (eegfname_of self channel) of
            None \<Rightarrow> False
          | Some efile \<Rightarrow>
              \<forall>off \<in> set (start_offsets self).
                case read_chunk (file_format self) (nat (read_size self)) efile off of
                  Inl _ \<Rightarrow> False | Inr _ \<Rightarrow> True"
      by fastforce
  qed
qed

text \<open>The binary read with a resolved read size, in closed form.\<close>

lemma read_binary_resolved_readable:
  assumes "readable fs self"
  shows "read_binary_resolved fs self out =
           (Inr (\<lparr>shape = (length (channels self), length (start_offsets self),
                           nat (read_size self)),
                  elems = binary_tensor fs self\<rparr>, binary_mask fs self),
            out @ binary_events fs self)"
proof -
  let ?ed = "replicate (length (channels self))
               (replicate (length (start_offsets self)) (replicate (nat (read_size self)) NaN))"
  let ?mk = "replicate (length (channels self)) (replicate (length (start_offsets self)) True)"
  from channels_loop_succeeds [OF assms [unfolded readable_def], of 0 ?ed ?mk out]
  obtain ed' mk' out' where
    run: "channels_loop fs self 0 (channels self) (?ed, ?mk, out) = Inr (ed', mk', out')"
    by blast
  from read_binary_resolved_rows [OF run] run show ?thesis
    by (simp add: read_binary_resolved_def)
qed

lemma read_binary_resolved_not_readable:
  assumes "\<not> readable fs self"
  shows "\<exists>err. fst (read_binary_resolved fs self out) = Inl err"
proof (cases "channels_loop fs self 0 (channels self)
                  (replicate (length (channels self))
                     (replicate (length (start_offsets self)) (replicate (nat (read_size self)) NaN)),
                   replicate (length (channels self)) (replicate (length (start_offsets self)) True),
                   out)")
  case (Inl x)
  then show ?thesis by (cases x) (simp add: read_binary_resolved_def)
next
  case (Inr st)
  obtain ed' mk' out' where "st = (ed', mk', out')" by (cases st)
  with Inr read_binary_resolved_rows(4) [of fs self out ed' mk' out'] assms
  show ?thesis by simp
qed

lemma read_binary_resolved_Inr_iff:
  "(\<exists>tm. fst (read_binary_resolved fs self out) = Inr tm) \<longleftrightarrow> readable fs self"
  using read_binary_resolved_readable [of fs self out]
        read_binary_resolved_not_readable [of fs self out]
  by (cases "readable fs self") auto

lemma read_binary_resolved_out:
  "read_binary_resolved fs self out =
     (fst (read_binary_resolved fs self []), out @ snd (read_binary_resolved fs self []))"
  unfolding read_binary_resolved_def Let_def
  by (subst channels_loop_out) (simp split: sum.splits prod.splits)

subsection \<open>Facts about one slice\<close>

lemma length_chunks [simp]: "length (chunks k n xs) = n"
  by (induction n arbitrary: xs) simp_all

lemma struct_unpack_length: "struct_unpack n c data = Some vals \<Longrightarrow> length vals = n"
  by (auto simp: struct_unpack_def split: option.splits if_splits)

lemma struct_unpack_int_no_NaN:
  "struct_unpack n c data = Some vals \<Longrightarrow> c = ''h'' \<or> c = ''i'' \<Longrightarrow> NaN \<notin> set vals"
  by (auto simp: struct_unpack_def unpack_item_def split: option.splits if_splits)

lemma read_chunk_negative: "off <s 0 \<Longrightarrow> read_chunk ff rs efile off = Inr None"
  by (simp add: read_chunk_def)

lemma read_chunk_Some_length:
  assumes "read_chunk ff rs efile off = Inr (Some vals)"
  shows "length vals = rs"
proof -
  let ?data = "seek_read efile (unat (word_of_nat (data_size ff) * off)) (data_size ff * rs)"
  from assms have u: "struct_unpack (length ?data div data_size ff) (format_string ff) ?data = Some vals"
    and ge: "\<not> length vals < rs"
    by (auto simp: read_chunk_def Let_def split: if_splits option.splits)
  have "length ?data \<le> data_size ff * rs" by (simp add: seek_read_def)
  then have "length ?data div data_size ff \<le> (data_size ff * rs) div data_size ff"
    by (rule div_le_mono)
  then have "length ?data div data_size ff \<le> rs"
    by (cases "data_size ff = 0") simp_all
  with struct_unpack_length [OF u] ge show ?thesis by simp
qed

lemma read_chunk_int_no_NaN:
  "read_chunk ff rs efile off = Inr (Some vals) \<Longrightarrow>
   format_string ff = ''h'' \<or> format_string ff = ''i'' \<Longrightarrow> NaN \<notin> set vals"
  by (auto simp: read_chunk_def Let_def split: if_splits option.splits
           dest: struct_unpack_int_no_NaN)

lemma length_slice_values:
  "length (slice_values ff rs efile off) = rs"
  by (auto simp: slice_values_def split: sum.splits option.splits dest: read_chunk_Some_length)

lemma slice_values_invalid:
  "\<not> slice_valid ff rs efile off \<Longrightarrow> slice_values ff rs efile off = replicate rs NaN"
  by (auto simp: slice_values_def slice_valid_def split: sum.splits option.splits)

lemma slice_valid_read_chunk:
  "read_chunk ff rs efile off = Inr r \<Longrightarrow>
   r = (if slice_valid ff rs efile off then Some (slice_values ff rs efile off) else None)"
  by (cases r) (simp_all add: slice_values_def slice_valid_def)

subsection \<open>The three ways through read_binary\<close>

lemma read_binary_resolved_size:
  "0 \<le> read_size self \<Longrightarrow>
   read_binary fs self =
     (fst (read_binary_resolved fs self []), self, snd (read_binary_resolved fs self []))"
  by (simp add: read_binary_def split: prod.splits)

lemma read_binary_no_size:
  "read_size self < 0 \<Longrightarrow> get_file_size fs self = (Inl err, out) \<Longrightarrow>
   read_binary fs self = (Inl err, self, out)"
  by (simp add: read_binary_def)

lemma read_binary_derived_size:
  "read_size self < 0 \<Longrightarrow> get_file_size fs self = (Inr sz, out) \<Longrightarrow>
   read_binary fs self =
     (fst (read_binary_resolved fs
             (self\<lparr>read_size := int (sz div data_size (file_format self))\<rparr>) []),
      self\<lparr>read_size := int (sz div data_size (file_format self))\<rparr>,
      out @ snd (read_binary_resolved fs
             (self\<lparr>read_size := int (sz div data_size (file_format self))\<rparr>) []))"
proof -
  assume neg: "read_size self < 0" and g: "get_file_size fs self = (Inr sz, out)"
  let ?self = "self\<lparr>read_size := int (sz div data_size (file_format self))\<rparr>"
  have "read_binary_resolved fs ?self out =
          (fst (read_binary_resolved fs ?self []), out @ snd (read_binary_resolved fs ?self []))"
    by (rule read_binary_resolved_out)
  with neg g show ?thesis by (simp add: read_binary_def Let_def)
qed

text \<open>The reader after the call: only the read size can differ, and it is not negative
  once the loops have run.\<close>

lemma read_binary_reader:
  "fst (snd (read_binary fs self)) = self\<lparr>read_size := read_size (fst (snd (read_binary fs self)))\<rparr>"
  by (cases "get_file_size fs self"; cases "fst (get_file_size fs self)")
     (auto simp: read_binary_def Let_def split: prod.splits)

lemma read_binary_Inr:
  assumes "fst (read_binary fs self) = Inr (t, m)"
  defines "self' \<equiv> fst (snd (read_binary fs self))"
  shows "0 \<le> read_size self'" and "readable fs self'"
    and "t = \<lparr>shape = (length (channels self), length (start_offsets self), nat (read_size self')),
              elems = binary_tensor fs self'\<rparr>"
    and "m = binary_mask fs self'"
    and "channels self' = channels self" and "start_offsets self' = start_offsets self"
    and "file_format self' = file_format self" and "dataroot self' = dataroot self"
proof -
  have *: "0 \<le> read_size self' \<and> fst (read_binary_resolved fs self' []) = Inr (t, m)
         \<and> channels self' = channels self \<and> start_offsets self' = start_offsets self
         \<and> file_format self' = file_format self \<and> dataroot self' = dataroot self"
  proof (cases "read_size self < 0")
    case False
    then show ?thesis using assms(1) by (simp add: self'_def read_binary_resolved_size)
  next
    case True
    obtain res out where g: "get_file_size fs self = (res, out)" by (cases "get_file_size fs self")
    show ?thesis
    proof (cases res)
      case (Inl err)
      with True g assms(1) show ?thesis by (simp add: read_binary_no_size)
    next
      case (Inr sz)
      with True g assms(1) show ?thesis
        by (simp add: self'_def read_binary_derived_size)
    qed
  qed
  then have r: "readable fs self'" using read_binary_resolved_Inr_iff [of fs self' "[]"] by auto
  show "0 \<le> read_size self'" "readable fs self'" using * r by simp_all
  show "channels self' = channels self" "start_offsets self' = start_offsets self"
    "file_format self' = file_format self" "dataroot self' = dataroot self"
    using * by simp_all
  from read_binary_resolved_readable [OF r, of "[]"] *
  show "t = \<lparr>shape = (length (channels self), length (start_offsets self), nat (read_size self')),
              elems = binary_tensor fs self'\<rparr>" "m = binary_mask fs self'"
    by simp_all
qed

text \<open>The pass through the loop body for an offset that is not negative, case by case.\<close>

lemma whole_items: "(n :: nat) = n div k * k \<longleftrightarrow> n mod k = 0"
proof
  assume "n = n div k * k"
  then show "n mod k = 0" by (metis mod_mult_self2_is_0)
next
  assume "n mod k = 0"
  then show "n = n div k * k" using div_mult_mod_eq [of n k] by simp
qed

lemma read_chunk_cases:
  assumes "calcsize (format_string ff) = Some (data_size ff)"
    and "\<not> off <s 0" and "\<not> word_of_nat (data_size ff) * off <s 0"
  shows "read_chunk ff rs efile off =
     (let data = seek_read efile (unat (word_of_nat (data_size ff) * off)) (data_size ff * rs)
      in if length data mod data_size ff \<noteq> 0 then Inl StructError
         else if length data div data_size ff < rs then Inr None
         else Inr (Some (map (unpack_item (format_string ff))
                           (chunks (data_size ff) (length data div data_size ff) data))))"
  using assms by (simp add: read_chunk_def struct_unpack_def Let_def whole_items)

text \<open>
  Every format of the table has the byte width of its format character, so every
  reader that the constructor returns has.
\<close>

lemma file_format_dict_calcsize:
  "map_of file_format_dict name = Some ff \<Longrightarrow>
   calcsize (format_string ff) = Some (data_size ff) \<and> 0 < data_size ff"
  by (auto simp: file_format_dict_def calcsize_def split: if_splits)

lemma init_calcsize:
  assumes "fst (init droot chans offs rs params) = Inr self"
  shows "calcsize (format_string (file_format self)) = Some (data_size (file_format self))"
proof (cases "map_of params ''format''")
  case None
  with assms show ?thesis by (auto simp: init_def calcsize_def)
next
  case (Some v)
  with assms obtain ff where "lookup_format v = Some ff" "file_format self = ff"
    by (auto simp: init_def Let_def split: option.splits)
  then show ?thesis
    by (cases v) (auto simp: lookup_format_def dest: file_format_dict_calcsize)
qed

subsection \<open>Resolution of the read size\<close>

lemma read_binary_unresolved:
  "resolved_reader fs self = None \<Longrightarrow>
   read_binary fs self = (Inl (projl (fst (get_file_size fs self))), self, snd (get_file_size fs self))
   \<and> isl (fst (get_file_size fs self))"
  by (cases "get_file_size fs self")
     (auto simp: resolved_reader_def read_binary_def split: if_splits sum.splits)

lemma read_binary_resolved_reader:
  assumes "resolved_reader fs self = Some self'"
  shows "fst (read_binary fs self) = fst (read_binary_resolved fs self' [])"
    and "fst (snd (read_binary fs self)) = self'"
    and "snd (snd (read_binary fs self)) =
           (if read_size self < 0 then snd (get_file_size fs self) else [])
           @ snd (read_binary_resolved fs self' [])"
    and "0 \<le> read_size self'" and "self' = self\<lparr>read_size := read_size self'\<rparr>"
proof -
  show "fst (read_binary fs self) = fst (read_binary_resolved fs self' [])"
       "fst (snd (read_binary fs self)) = self'"
       "snd (snd (read_binary fs self)) =
           (if read_size self < 0 then snd (get_file_size fs self) else [])
           @ snd (read_binary_resolved fs self' [])"
    using assms
    by (cases "get_file_size fs self";
        auto simp: resolved_reader_def read_binary_resolved_size read_binary_derived_size
             split: if_splits sum.splits)+
  show "0 \<le> read_size self'" "self' = self\<lparr>read_size := read_size self'\<rparr>"
    using assms by (auto simp: resolved_reader_def split: if_splits sum.splits)
qed

lemma read_binary_success:
  "fst (read_binary fs self) = Inr (t, m) \<longleftrightarrow>
     (\<exists>self'. resolved_reader fs self = Some self' \<and> readable fs self'
        \<and> t = \<lparr>shape = (length (channels self), length (start_offsets self),
                          nat (read_size self')),
                 elems = binary_tensor fs self'\<rparr>
        \<and> m = binary_mask fs self')"
proof (cases "resolved_reader fs self")
  case None
  then show ?thesis using read_binary_unresolved [OF None] by simp
next
  case (Some self')
  note r = read_binary_resolved_reader [OF Some]
  have same: "channels self' = channels self" "start_offsets self' = start_offsets self"
    by (subst r(5), simp)+
  show ?thesis
  proof (cases "readable fs self'")
    case True
    from read_binary_resolved_readable [OF True, of "[]"] r(1) Some True same
    show ?thesis by auto
  next
    case False
    from read_binary_resolved_not_readable [OF False, of "[]"] r(1) Some False
    show ?thesis by auto
  qed
qed

lemma read_binary_success_events:
  assumes "fst (read_binary fs self) = Inr (t, m)"
  shows "snd (snd (read_binary fs self)) =
           (if read_size self < 0 then snd (get_file_size fs self) else [])
           @ binary_events fs (fst (snd (read_binary fs self)))"
proof -
  from assms obtain self' where s: "resolved_reader fs self = Some self'" and r: "readable fs self'"
    by (auto simp: read_binary_success)
  from read_binary_resolved_reader [OF s] read_binary_resolved_readable [OF r, of "[]"]
  show ?thesis by simp
qed

subsection \<open>No loop asks for the size of a file\<close>

lemma offsets_loop_getsize:
  "filter is_Getsize (loop_events (offsets_loop ff rs f efile c e offs (ed, mk, out))) =
   filter is_Getsize out"
proof (induction offs arbitrary: e ed mk out)
  case Nil
  then show ?case by (simp add: loop_events_def)
next
  case (Cons off rest)
  show ?case
  proof (cases "read_chunk ff rs efile off")
    case (Inl err)
    then show ?thesis by (simp add: offsets_loop_Cons loop_events_def)
  next
    case (Inr r)
    then show ?thesis
      by (cases r) (simp_all add: offsets_loop_Cons Cons.IH chunk_events_def)
  qed
qed

lemma channels_loop_getsize:
  "filter is_Getsize (loop_events (channels_loop fs self c chans (ed, mk, out))) =
   filter is_Getsize out"
proof (induction chans arbitrary: c ed mk out)
  case Nil
  then show ?case by (simp add: loop_events_def)
next
  case (Cons channel rest)
  show ?case
  proof (cases "flat fs (eegfname_of self channel)")
    case None
    then show ?thesis by (simp add: channels_loop_Cons loop_events_def)
  next
    case (Some efile)
    let ?run = "offsets_loop (file_format self) (nat (read_size self)) (eegfname_of self channel)
                  efile c 0 (start_offsets self) (ed, mk, out @ [Open (eegfname_of self channel)])"
    have g: "filter is_Getsize (loop_events ?run) = filter is_Getsize out"
      by (simp add: offsets_loop_getsize)
    show ?thesis
    proof (cases ?run)
      case (Inl x)
      with g Some show ?thesis by (simp add: channels_loop_Cons)
    next
      case (Inr st)
      obtain ed1 mk1 out1 where st: "st = (ed1, mk1, out1)" by (cases st)
      with g Inr have "filter is_Getsize out1 = filter is_Getsize out"
        by (simp add: loop_events_def)
      with Some Inr st show ?thesis by (simp add: channels_loop_Cons Cons.IH)
    qed
  qed
qed

lemma read_binary_resolved_getsize:
  "filter is_Getsize (snd (read_binary_resolved fs self out)) = filter is_Getsize out"
proof -
  have "snd (read_binary_resolved fs self out) =
          loop_events (channels_loop fs self 0 (channels self)
             (replicate (length (channels self))
                (replicate (length (start_offsets self)) (replicate (nat (read_size self)) NaN)),
              replicate (length (channels self)) (replicate (length (start_offsets self)) True),
              out))"
    by (simp add: read_binary_resolved_def loop_events_def split: sum.splits prod.splits)
  then show ?thesis by (simp add: channels_loop_getsize)
qed

subsection \<open>Requests without their negative offsets\<close>

lemma at_kept_map: "at_kept offs (map f offs) = map f (filter (\<lambda>off. \<not> off <s 0) offs)"
  by (induction offs) (simp_all add: at_kept_def)

lemma eegfname_of_start_offsets [simp]:
  "eegfname_of (self\<lparr>start_offsets := offs\<rparr>) channel = eegfname_of self channel"
  by (simp add: eegfname_of_def)

lemma eegfname_of_read_size [simp]:
  "eegfname_of (self\<lparr>read_size := rs\<rparr>) channel = eegfname_of self channel"
  by (simp add: eegfname_of_def)

lemma get_file_size_without_negative:
  "get_file_size fs (without_negative self) = get_file_size fs self"
  by (simp add: get_file_size_def without_negative_def split: list.splits)

lemma resolved_reader_without_negative:
  "resolved_reader fs (without_negative self) = map_option without_negative (resolved_reader fs self)"
proof (cases "fst (get_file_size fs self)")
  case (Inl err)
  then show ?thesis
    by (simp add: resolved_reader_def get_file_size_without_negative)
       (simp add: without_negative_def)
next
  case (Inr sz)
  then show ?thesis
    by (simp add: resolved_reader_def get_file_size_without_negative)
       (simp add: without_negative_def)
qed

lemma readable_without_negative: "readable fs (without_negative self) \<longleftrightarrow> readable fs self"
proof -
  have "list_all (\<lambda>off. case read_chunk ff rs efile off of Inl _ \<Rightarrow> False | Inr _ \<Rightarrow> True)
          (filter (\<lambda>off. \<not> off <s 0) offs)
        \<longleftrightarrow> list_all (\<lambda>off. case read_chunk ff rs efile off of Inl _ \<Rightarrow> False | Inr _ \<Rightarrow> True) offs"
    for ff rs efile offs
    by (induction offs) (simp_all add: read_chunk_negative)
  then show ?thesis
    by (simp add: readable_def without_negative_def eegfname_of_def cong: option.case_cong)
qed

lemma binary_mask_without_negative:
  "binary_mask fs (without_negative self) = map (at_kept (start_offsets self)) (binary_mask fs self)"
  by (simp add: binary_mask_def without_negative_def eegfname_of_def at_kept_map)

lemma binary_tensor_without_negative:
  "binary_tensor fs (without_negative self) =
     map (at_kept (start_offsets self)) (binary_tensor fs self)"
  by (simp add: binary_tensor_def without_negative_def eegfname_of_def at_kept_map)

lemma negative_offset_printed:
  assumes "channel \<in> set (channels self)" and "off \<in> set (start_offsets self)" and "off <s 0"
  shows "Print_negative_offset off (eegfname_of self channel) \<in> set (binary_events fs self)"
proof -
  have "slice_events (file_format self) (nat (read_size self)) (eegfname_of self channel)
          (the (flat fs (eegfname_of self channel))) off
        = [Print_negative_offset off (eegfname_of self channel)]"
    using assms(3) by (simp add: slice_events_def read_chunk_negative chunk_events_def)
  then have "Print_negative_offset off (eegfname_of self channel)
      \<in> set (slice_events (file_format self) (nat (read_size self)) (eegfname_of self channel)
          (the (flat fs (eegfname_of self channel))) off)" by simp
  with assms(2) have "Print_negative_offset off (eegfname_of self channel)
      \<in> set (concat (map (slice_events (file_format self) (nat (read_size self))
                (eegfname_of self channel) (the (flat fs (eegfname_of self channel))))
              (start_offsets self)))"
    by (simp only: set_concat set_map) blast
  then have "Print_negative_offset off (eegfname_of self channel)
      \<in> set (Open (eegfname_of self channel) #
               concat (map (slice_events (file_format self) (nat (read_size self))
                (eegfname_of self channel) (the (flat fs (eegfname_of self channel))))
              (start_offsets self)))" by simp
  with assms(1) show ?thesis
    unfolding binary_events_def by (simp only: set_concat set_map) blast
qed

lemma binary_rows:
  assumes "readable fs self" and "c < length (channels self)" and "e < length (start_offsets self)"
  shows "\<exists>efile r. flat fs (eegfname_of self (channels self ! c)) = Some efile
      \<and> read_chunk (file_format self) (nat (read_size self)) efile (start_offsets self ! e) = Inr r
      \<and> binary_tensor fs self ! c ! e =
          slice_values (file_format self) (nat (read_size self)) efile (start_offsets self ! e)
      \<and> binary_mask fs self ! c ! e =
          slice_valid (file_format self) (nat (read_size self)) efile (start_offsets self ! e)"
proof -
  from assms(1,2) have "case flat fs (eegfname_of self (channels self ! c)) of
          None \<Rightarrow> False
        | Some efile \<Rightarrow>
            list_all (\<lambda>off. case read_chunk (file_format self) (nat (read_size self)) efile off of
                              Inl _ \<Rightarrow> False | Inr _ \<Rightarrow> True)
              (start_offsets self)"
    unfolding readable_def list_all_length by blast
  then obtain efile where
    efile: "flat fs (eegfname_of self (channels self ! c)) = Some efile"
    and all: "list_all (\<lambda>off. case read_chunk (file_format self) (nat (read_size self)) efile off of
                              Inl _ \<Rightarrow> False | Inr _ \<Rightarrow> True) (start_offsets self)"
    by (cases "flat fs (eegfname_of self (channels self ! c))") simp_all
  from all assms(3) have "case read_chunk (file_format self) (nat (read_size self)) efile
                              (start_offsets self ! e) of Inl _ \<Rightarrow> False | Inr _ \<Rightarrow> True"
    unfolding list_all_length by blast
  then obtain r where
    "read_chunk (file_format self) (nat (read_size self)) efile (start_offsets self ! e) = Inr r"
    by (cases "read_chunk (file_format self) (nat (read_size self)) efile (start_offsets self ! e)")
       simp_all
  with efile assms(2,3) show ?thesis
    by (simp add: binary_tensor_def binary_mask_def)
qed

subsection \<open>The read operation\<close>

lemma read_hdf5_reader: "fst (snd (read_hdf5 fs self)) = self"
  by (simp add: read_hdf5_def Let_def split: option.splits sum.splits prod.splits)

lemma read_assemble:
  "read fs self =
     (if \<not> endswith (dataroot self) ''h5''
      then (assemble (fst (snd (read_binary fs self))) (fst (read_binary fs self)),
            fst (snd (read_binary fs self)), snd (snd (read_binary fs self)))
      else (assemble self (fst (read_hdf5 fs self)), self, snd (snd (read_hdf5 fs self))))"
proof (cases "endswith (dataroot self) ''h5''")
  case True
  obtain res out where h: "read_hdf5 fs self = (res, self, out)"
    using read_hdf5_reader [of fs self] by (cases "read_hdf5 fs self") auto
  show ?thesis using True h
    by (simp add: read_def assemble_def Let_def split: sum.splits option.splits pval.splits)
next
  case False
  obtain res self' out where b: "read_binary fs self = (res, self', out)"
    by (cases "read_binary fs self") auto
  show ?thesis using False b
    by (simp add: read_def assemble_def Let_def split: sum.splits option.splits pval.splits)
qed

lemma read_binary_twice:
  "fst (read_binary fs (fst (snd (read_binary fs self)))) = fst (read_binary fs self)
   \<and> fst (snd (read_binary fs (fst (snd (read_binary fs self))))) = fst (snd (read_binary fs self))"
proof (cases "resolved_reader fs self")
  case None
  then show ?thesis using read_binary_unresolved [OF None] by simp
next
  case (Some self')
  note r = read_binary_resolved_reader [OF Some]
  have "resolved_reader fs self' = Some self'" using r(4) by (simp add: resolved_reader_def)
  from read_binary_resolved_reader(1,2) [OF this] r(1,2) show ?thesis by simp
qed

lemma dataroot_read_binary: "dataroot (fst (snd (read_binary fs self))) = dataroot self"
  by (subst read_binary_reader) simp

subsection \<open>The tabular backend\<close>

text \<open>\<^verbatim>\<open>read_hdf5\<close> returns a result for no request.\<close>

lemma read_hdf5_raises: "\<exists>err. fst (read_hdf5 fs self) = Inl err"
  by (simp add: read_hdf5_def builtin_len_def Let_def split: option.splits)

lemma read_hdf5_resolved_TypeError:
  "0 \<le> read_size self \<Longrightarrow> h5 fs (dataroot self) = Some eegfile \<Longrightarrow>
   astype_int_all (channels self) = Some wanted \<Longrightarrow>
   read_hdf5 fs self = (Inl TypeError, self, [Open_h5 (dataroot self)])"
  by (simp add: read_hdf5_def builtin_len_def Let_def)

lemma read_hdf5_whole_file_NoSuchNodeError:
  "read_size self < 0 \<Longrightarrow> h5 fs (dataroot self) = Some eegfile \<Longrightarrow>
   astype_int_all (channels self) = Some wanted \<Longrightarrow>
   read_hdf5 fs self = (Inl NoSuchNodeError, self, [Open_h5 (dataroot self)])"
  by (simp add: read_hdf5_def root_attrs_def Let_def)

section \<open>The claims\<close>

text \<open>
  Claim C5.  When the parameter mapping has a format that is not a key of the table,
  the constructor raises the error that carries the format and the list of the keys of
  the table (exactly the names that the table resolves), and it has opened no file and
  warned about nothing; when the mapping has no format at all, the constructor returns
  the reader with the default format of 2 bytes and \<^verbatim>\<open>h\<close> (int16), and the warning is
  all it leaves behind.
\<close>

theorem init_format_resolution:
  "(\<forall>v. map_of params ''format'' = Some v \<longrightarrow> lookup_format v = None \<longrightarrow>
        init droot chans offs rs params =
          (Inl (RuntimeError v (map fst file_format_dict)), []))
   \<and> (map_of params ''format'' = None \<longrightarrow>
        init droot chans offs rs params =
          (Inr \<lparr>dataroot = droot, channels = chans, start_offsets = offs, read_size = rs,
                file_format = \<lparr>data_size = 2, format_string = ''h''\<rparr>,
                params_dict = params\<rparr>, [Warn_no_format]))
   \<and> (\<forall>name. name \<in> set (map fst file_format_dict) \<longleftrightarrow> lookup_format (PStr name) \<noteq> None)"
proof (intro conjI allI impI)
  fix name
  show "name \<in> set (map fst file_format_dict) \<longleftrightarrow> lookup_format (PStr name) \<noteq> None"
    by (simp add: lookup_format_def map_of_eq_None_iff)
qed (simp_all add: init_def)

theorem init_format_resolution_witness:
  "map_of [(''format'', PStr ''bogus'')] ''format'' = Some (PStr ''bogus'')
   \<and> lookup_format (PStr ''bogus'') = None
   \<and> init ''root'' [''001''] [0] 4 [(''format'', PStr ''bogus'')] =
       (Inl (RuntimeError (PStr ''bogus'')
               [''single'', ''float32'', ''short'', ''int16'', ''int32'', ''double'', ''float64'']),
        [])
   \<and> map_of ([] :: (string \<times> pval) list) ''format'' = None
   \<and> init ''root'' [''001''] [0] 4 [] =
       (Inr \<lparr>dataroot = ''root'', channels = [''001''], start_offsets = [0], read_size = 4,
             file_format = \<lparr>data_size = 2, format_string = ''h''\<rparr>, params_dict = []\<rparr>,
        [Warn_no_format])
   \<and> ''int16'' \<in> set (map fst file_format_dict)"
proof -
  have none: "lookup_format (PStr ''bogus'') = None"
    by (simp add: lookup_format_def file_format_dict_def)
  have keys: "map fst file_format_dict =
      [''single'', ''float32'', ''short'', ''int16'', ''int32'', ''double'', ''float64'']"
    by (simp add: file_format_dict_def)
  have int16: "lookup_format (PStr ''int16'') \<noteq> None"
    by (simp add: lookup_format_def file_format_dict_def)
  show ?thesis
    using init_format_resolution [of "[(''format'', PStr ''bogus'')]" "''root''" "[''001'']" "[0]" 4]
      init_format_resolution [of "[]" "''root''" "[''001'']" "[0]" 4] none keys int16
    by simp
qed

text \<open>
  Claim C2.  In the scenario, reading the offsets 0 and 4 with a read size of 4 returns
  the samples multiplied by the gain, \<open>[[[2, 4, 6, 8], [10, 12, 14, 16]]]\<close>, and the
  mask \<open>[[True, True]]\<close>.
\<close>

theorem read_scenario:
  "read scenario_fs (scenario_reader [0, 4] 4) =
     (Inr (\<lparr>values_of = \<lparr>shape = (1, 2, 4),
                          elems = [[[Fin 2, Fin 4, Fin 6, Fin 8],
                                    [Fin 10, Fin 12, Fin 14, Fin 16]]]\<rparr>,
            coord_channels = [''001''], coord_start_offsets = [0, 4],
            coord_offsets = [0, 1, 2, 3], coord_samplerate = PFloat (Fin 500),
            attrs = scenario_params\<rparr>, [[True, True]]),
      scenario_reader [0, 4] 4, [Open ''root.001''])"
  by (simp add: eval_defs upt_rec)

text \<open>
  Claim C1, as the code has it.  In every result of the binary backend, for every
  channel index \<open>c\<close> and offset index \<open>e\<close>: the mask entry tells whether the pass
  through the loop body for that channel file and offset decoded \<open>read_size\<close> samples,
  and these are then the slice; a slice whose mask entry is \<^verbatim>\<open>False\<close> consists of
  \<open>read_size\<close> not-a-number values; and when \<open>read_size\<close> is at least 1 and the
  format is one of the integer formats (\<^verbatim>\<open>h\<close>, \<^verbatim>\<open>i\<close>), the mask entry is \<^verbatim>\<open>True\<close> if and
  only if the slice contains no not-a-number value.  (\<open>read_size\<close> is the length of
  the sample axis of the result.)
\<close>

theorem mask_marks_populated_slices:
  assumes "fst (read_binary fs self) = Inr (t, m)"
    and "c < length (channels self)" and "e < length (start_offsets self)"
  shows "(\<exists>efile. flat fs (eegfname_of self (channels self ! c)) = Some efile
            \<and> read_chunk (file_format self) (snd (snd (shape t))) efile (start_offsets self ! e)
                = Inr (if m ! c ! e then Some (elems t ! c ! e) else None))
       \<and> (m ! c ! e \<longrightarrow> length (elems t ! c ! e) = snd (snd (shape t)))
       \<and> (\<not> m ! c ! e \<longrightarrow> elems t ! c ! e = replicate (snd (snd (shape t))) NaN)
       \<and> (0 < snd (snd (shape t))
            \<and> (format_string (file_format self) = ''h'' \<or> format_string (file_format self) = ''i'')
          \<longrightarrow> (m ! c ! e \<longleftrightarrow> NaN \<notin> set (elems t ! c ! e)))"
proof -
  from assms(1) obtain self' where
    res: "resolved_reader fs self = Some self'" and rd: "readable fs self'"
    and t: "t = \<lparr>shape = (length (channels self), length (start_offsets self),
                          nat (read_size self')),
                 elems = binary_tensor fs self'\<rparr>"
    and m: "m = binary_mask fs self'"
    by (auto simp: read_binary_success)
  have self': "self' = self\<lparr>read_size := read_size self'\<rparr>"
    by (rule read_binary_resolved_reader(5) [OF res])
  have same: "channels self' = channels self" "start_offsets self' = start_offsets self"
    "file_format self' = file_format self"
    "eegfname_of self' (channels self ! c) = eegfname_of self (channels self ! c)"
    by (subst self', simp)+
  let ?rs = "nat (read_size self')"
  from binary_rows [OF rd, of c e] assms(2,3) same obtain efile r where
    efile: "flat fs (eegfname_of self (channels self ! c)) = Some efile"
    and r: "read_chunk (file_format self) ?rs efile (start_offsets self ! e) = Inr r"
    and tv: "elems t ! c ! e = slice_values (file_format self) ?rs efile (start_offsets self ! e)"
    and mv: "m ! c ! e = slice_valid (file_format self) ?rs efile (start_offsets self ! e)"
    by (auto simp: t m)
  have rs: "snd (snd (shape t)) = ?rs" by (simp add: t)
  note rv = slice_valid_read_chunk [OF r]
  have a: "read_chunk (file_format self) ?rs efile (start_offsets self ! e)
             = Inr (if m ! c ! e then Some (elems t ! c ! e) else None)"
    using r rv by (simp add: tv mv)
  have b: "length (elems t ! c ! e) = ?rs" by (simp add: tv length_slice_values)
  have c: "\<not> m ! c ! e \<Longrightarrow> elems t ! c ! e = replicate ?rs NaN"
    by (simp add: tv mv slice_values_invalid)
  have d: "m ! c ! e \<longleftrightarrow> NaN \<notin> set (elems t ! c ! e)"
    if "0 < ?rs" "format_string (file_format self) = ''h'' \<or> format_string (file_format self) = ''i''"
  proof (cases "m ! c ! e")
    case True
    with a have "read_chunk (file_format self) ?rs efile (start_offsets self ! e)
                   = Inr (Some (elems t ! c ! e))" by simp
    from read_chunk_int_no_NaN [OF this that(2)] True show ?thesis by simp
  next
    case False
    with c that(1) show ?thesis by simp
  qed
  show ?thesis using efile a b c d by (simp add: rs)
qed

text \<open>
  Claim C1 on a concrete input: in the scenario with the offsets 0 and 6 and a read size of 4, the
  slice of offset 6 has only two samples left; its mask entry is \<^verbatim>\<open>False\<close> and it holds
  four not-a-number values.
\<close>

theorem mask_marks_populated_slices_witness:
  "fst (read_binary scenario_fs (scenario_reader [0, 6] 4)) =
      Inr (\<lparr>shape = (1, 2, 4),
             elems = [[[Fin 1, Fin 2, Fin 3, Fin 4], [NaN, NaN, NaN, NaN]]]\<rparr>, [[True, False]])
   \<and> (0 :: nat) < length (channels (scenario_reader [0, 6] 4))
   \<and> (1 :: nat) < length (start_offsets (scenario_reader [0, 6] 4))
   \<and> ([[True, False]] ! 0 ! 1 \<longleftrightarrow> NaN \<notin> set ([[[Fin 1, Fin 2, Fin 3, Fin 4], [NaN, NaN, NaN, NaN]]] ! 0 ! 1))"
proof -
  have run: "fst (read_binary scenario_fs (scenario_reader [0, 6] 4)) =
      Inr (\<lparr>shape = (1, 2, 4),
             elems = [[[Fin 1, Fin 2, Fin 3, Fin 4], [NaN, NaN, NaN, NaN]]]\<rparr>, [[True, False]])"
    by (simp add: eval_defs)
  have c: "(0 :: nat) < length (channels (scenario_reader [0, 6] 4))"
    and e: "(1 :: nat) < length (start_offsets (scenario_reader [0, 6] 4))"
    by (simp_all add: scenario_reader_def)
  from mask_marks_populated_slices [OF run c e] run c e show ?thesis
    by (simp add: scenario_reader_def)
qed

text \<open>
  Where C1 as stated fails.  With a read size of 0, the slice of a negative offset is
  marked invalid and is empty, so it contains no not-a-number value.  With the format
  \<^verbatim>\<open>single\<close> and a file that holds a float that is not a number, the slice is fully
  populated and marked valid, and it contains a not-a-number value.
\<close>

theorem mask_iff_no_sentinel_counterexample:
  "read_binary scenario_fs (scenario_reader [- 5] 0) =
     (Inr (\<lparr>shape = (1, 1, 0), elems = [[[]]]\<rparr>, [[False]]),
      scenario_reader [- 5] 0, [Open ''root.001'', Print_negative_offset (- 5) ''root.001''])
   \<and> \<not> ([[False]] ! 0 ! 0 \<longleftrightarrow> NaN \<notin> set ([[[]]] ! 0 ! 0))
   \<and> read_binary nan_fs float_reader =
     (Inr (\<lparr>shape = (1, 1, 1), elems = [[[NaN]]]\<rparr>, [[True]]), float_reader, [Open ''root.001''])
   \<and> \<not> ([[True]] ! 0 ! 0 \<longleftrightarrow> NaN \<notin> set ([[[NaN]]] ! 0 ! 0))"
  by (simp add: eval_defs nan_fs_def float_reader_def ieee_def)

text \<open>
  Claim C3.  When the read size is negative and the first channel's file exists, the
  binary backend asks once for the size of that file, replaces the read size in the
  reader by the size divided by the byte width of the format (integer division), and
  then runs as for that read size: every slice of every channel of the result has that
  length.  When moreover the byte width is that of the format character, the file
  holds whole samples and a start offset is 0, the slice of the first channel at that
  offset is valid and is the whole file, decoded.
\<close>

theorem read_size_resolved_once:
  assumes "read_size self < 0" and "channels self = ch # chs"
    and "flat fs (eegfname_of self ch) = Some bytes"
  shows "fst (snd (read_binary fs self)) =
           self\<lparr>read_size := int (length bytes div data_size (file_format self))\<rparr>
       \<and> fst (read_binary fs self) =
           fst (read_binary_resolved fs
                  (self\<lparr>read_size := int (length bytes div data_size (file_format self))\<rparr>) [])
       \<and> snd (snd (read_binary fs self)) =
           Getsize (eegfname_of self ch) #
           snd (read_binary_resolved fs
                  (self\<lparr>read_size := int (length bytes div data_size (file_format self))\<rparr>) [])
       \<and> length (filter is_Getsize (snd (snd (read_binary fs self)))) = 1
       \<and> (\<forall>t m. fst (read_binary fs self) = Inr (t, m) \<longrightarrow>
             shape t = (length (channels self), length (start_offsets self),
                        length bytes div data_size (file_format self))
           \<and> (\<forall>row \<in> set (elems t). \<forall>slice \<in> set row.
                 length slice = length bytes div data_size (file_format self))
           \<and> (\<forall>e. e < length (start_offsets self) \<and> start_offsets self ! e = 0
                  \<and> calcsize (format_string (file_format self)) = Some (data_size (file_format self))
                  \<and> length bytes mod data_size (file_format self) = 0
                \<longrightarrow> m ! 0 ! e = True
                  \<and> elems t ! 0 ! e =
                      map (unpack_item (format_string (file_format self)))
                        (chunks (data_size (file_format self))
                           (length bytes div data_size (file_format self)) bytes)))"
proof -
  let ?n = "length bytes div data_size (file_format self)"
  let ?self = "self\<lparr>read_size := int ?n\<rparr>"
  let ?ff = "file_format self"
  have g: "get_file_size fs self = (Inr (length bytes), [Getsize (eegfname_of self ch)])"
    using assms(2,3) by (simp add: get_file_size_def)
  have res: "resolved_reader fs self = Some ?self"
    using assms(1) g by (simp add: resolved_reader_def)
  note r = read_binary_resolved_reader [OF res]
  have ev: "snd (snd (read_binary fs self)) =
              Getsize (eegfname_of self ch) # snd (read_binary_resolved fs ?self [])"
    using r(3) assms(1) g by simp
  have once: "length (filter is_Getsize (snd (snd (read_binary fs self)))) = 1"
    using read_binary_resolved_getsize [of fs ?self "[]"] by (simp add: ev)
  have results: "shape t = (length (channels self), length (start_offsets self), ?n)
           \<and> (\<forall>row \<in> set (elems t). \<forall>slice \<in> set row. length slice = ?n)
           \<and> (\<forall>e. e < length (start_offsets self) \<and> start_offsets self ! e = 0
                  \<and> calcsize (format_string ?ff) = Some (data_size ?ff)
                  \<and> length bytes mod data_size ?ff = 0
                \<longrightarrow> m ! 0 ! e = True
                  \<and> elems t ! 0 ! e =
                      map (unpack_item (format_string ?ff)) (chunks (data_size ?ff) ?n bytes))"
    if run: "fst (read_binary fs self) = Inr (t, m)" for t m
  proof -
    from run res have rd: "readable fs ?self"
      and t: "t = \<lparr>shape = (length (channels self), length (start_offsets self), ?n),
                   elems = binary_tensor fs ?self\<rparr>"
      and m: "m = binary_mask fs ?self"
      by (auto simp: read_binary_success)
    have len: "\<forall>row \<in> set (elems t). \<forall>slice \<in> set row. length slice = ?n"
      by (auto simp: t binary_tensor_def length_slice_values)
    have full: "m ! 0 ! e = True
                  \<and> elems t ! 0 ! e =
                      map (unpack_item (format_string ?ff)) (chunks (data_size ?ff) ?n bytes)"
      if e: "e < length (start_offsets self)" and zero: "start_offsets self ! e = 0"
        and cs: "calcsize (format_string ?ff) = Some (data_size ?ff)"
        and al: "length bytes mod data_size ?ff = 0"
      for e
    proof -
      have whole: "data_size ?ff * ?n = length bytes"
        using al by (metis div_mult_mod_eq add.right_neutral mult.commute)
      have chunk: "read_chunk ?ff ?n bytes 0 =
          Inr (Some (map (unpack_item (format_string ?ff)) (chunks (data_size ?ff) ?n bytes)))"
        using cs whole
        by (simp add: read_chunk_def seek_read_def struct_unpack_def mult.commute)
      have "m ! 0 ! e = slice_valid ?ff ?n bytes 0"
        using e zero assms(2,3) by (simp add: m binary_mask_def)
      moreover have "elems t ! 0 ! e = slice_values ?ff ?n bytes 0"
        using e zero assms(2,3) by (simp add: t binary_tensor_def)
      ultimately show ?thesis using chunk by (simp add: slice_valid_def slice_values_def)
    qed
    show ?thesis using t len full by simp
  qed
  show ?thesis using r(1,2) ev once results by simp
qed

text \<open>
  Claim C3 on a concrete input: in the scenario, with a read size of -1 and the single offset 0,
  the read size becomes 8 and the result is the full channel as one valid slice.
\<close>

theorem read_size_resolved_once_witness:
  "read_size (scenario_reader [0] (- 1)) < 0
   \<and> channels (scenario_reader [0] (- 1)) = [''001'']
   \<and> flat scenario_fs (eegfname_of (scenario_reader [0] (- 1)) ''001'') = Some samples_1_to_8
   \<and> read_binary scenario_fs (scenario_reader [0] (- 1)) =
       (Inr (\<lparr>shape = (1, 1, 8),
              elems = [[[Fin 1, Fin 2, Fin 3, Fin 4, Fin 5, Fin 6, Fin 7, Fin 8]]]\<rparr>, [[True]]),
        scenario_reader [0] 8, [Getsize ''root.001'', Open ''root.001''])
   \<and> length (filter is_Getsize (snd (snd (read_binary scenario_fs (scenario_reader [0] (- 1)))))) = 1"
proof -
  have a: "read_size (scenario_reader [0] (- 1)) < 0"
    and b: "channels (scenario_reader [0] (- 1)) = [''001'']"
    and c: "flat scenario_fs (eegfname_of (scenario_reader [0] (- 1)) ''001'') = Some samples_1_to_8"
    by (simp_all add: scenario_reader_def scenario_fs_def eegfname_of_def)
  have run: "read_binary scenario_fs (scenario_reader [0] (- 1)) =
       (Inr (\<lparr>shape = (1, 1, 8),
              elems = [[[Fin 1, Fin 2, Fin 3, Fin 4, Fin 5, Fin 6, Fin 7, Fin 8]]]\<rparr>, [[True]]),
        scenario_reader [0] 8, [Getsize ''root.001'', Open ''root.001''])"
    by (simp add: eval_defs)
  from read_size_resolved_once [OF a b c]
  have "length (filter is_Getsize (snd (snd (read_binary scenario_fs (scenario_reader [0] (- 1)))))) = 1"
    by blast
  with a b c run show ?thesis by simp
qed

text \<open>
  Claim C4.  In every result of the binary backend, the slice of a negative start
  offset is marked invalid in the mask of every channel, consists of not-a-number
  values only, and the message about the negative offset, with the offset and the
  file name, has been printed.  The negative offsets abort nothing and touch no other
  slice: the call returns a result exactly when the same call without the negative
  offsets does, and then the mask and the array of that call are the mask and the
  array of this one at the offsets that are not negative.
\<close>

theorem negative_offsets_only_invalidate_their_slices:
  "(\<forall>t m. fst (read_binary fs self) = Inr (t, m) \<longrightarrow>
      (\<forall>c e. c < length (channels self) \<and> e < length (start_offsets self)
              \<and> start_offsets self ! e <s 0 \<longrightarrow>
         m ! c ! e = False
         \<and> elems t ! c ! e = replicate (snd (snd (shape t))) NaN
         \<and> Print_negative_offset (start_offsets self ! e) (eegfname_of self (channels self ! c))
             \<in> set (snd (snd (read_binary fs self)))))
   \<and> ((\<exists>tm. fst (read_binary fs self) = Inr tm)
        \<longleftrightarrow> (\<exists>tm. fst (read_binary fs (without_negative self)) = Inr tm))
   \<and> (\<forall>t m t' m'. fst (read_binary fs self) = Inr (t, m)
          \<and> fst (read_binary fs (without_negative self)) = Inr (t', m') \<longrightarrow>
          m' = map (at_kept (start_offsets self)) m
        \<and> elems t' = map (at_kept (start_offsets self)) (elems t)
        \<and> snd (snd (shape t')) = snd (snd (shape t)))"
proof (intro conjI allI impI)
  fix t m c e
  assume run: "fst (read_binary fs self) = Inr (t, m)"
    and ce: "c < length (channels self) \<and> e < length (start_offsets self)
              \<and> start_offsets self ! e <s 0"
  from run obtain self' where
    res: "resolved_reader fs self = Some self'" and rd: "readable fs self'"
    and t: "t = \<lparr>shape = (length (channels self), length (start_offsets self),
                          nat (read_size self')),
                 elems = binary_tensor fs self'\<rparr>"
    and m: "m = binary_mask fs self'"
    by (auto simp: read_binary_success)
  note r = read_binary_resolved_reader [OF res]
  have same: "channels self' = channels self" "start_offsets self' = start_offsets self"
    "eegfname_of self' (channels self ! c) = eegfname_of self (channels self ! c)"
    by (subst r(5), simp)+
  have neg: "read_chunk (file_format self') (nat (read_size self')) efile (start_offsets self ! e)
               = Inr None" for efile
    using ce by (simp add: read_chunk_negative)
  show "m ! c ! e = False"
    using ce same by (simp add: m binary_mask_def slice_valid_def neg)
  show "elems t ! c ! e = replicate (snd (snd (shape t))) NaN"
    using ce same by (simp add: t binary_tensor_def slice_values_def neg)
  have "Print_negative_offset (start_offsets self ! e) (eegfname_of self' (channels self ! c))
          \<in> set (binary_events fs self')"
    using ce same by (intro negative_offset_printed) simp_all
  then show "Print_negative_offset (start_offsets self ! e) (eegfname_of self (channels self ! c))
          \<in> set (snd (snd (read_binary fs self)))"
    using read_binary_success_events [OF run] r(2) same by simp
next
  show "(\<exists>tm. fst (read_binary fs self) = Inr tm)
        \<longleftrightarrow> (\<exists>tm. fst (read_binary fs (without_negative self)) = Inr tm)"
  proof
    assume "\<exists>tm. fst (read_binary fs self) = Inr tm"
    then obtain self' where "resolved_reader fs self = Some self'" "readable fs self'"
      by (auto simp: read_binary_success)
    then have "resolved_reader fs (without_negative self) = Some (without_negative self')"
      "readable fs (without_negative self')"
      by (simp_all add: resolved_reader_without_negative readable_without_negative)
    then show "\<exists>tm. fst (read_binary fs (without_negative self)) = Inr tm"
      by (auto simp: read_binary_success)
  next
    assume "\<exists>tm. fst (read_binary fs (without_negative self)) = Inr tm"
    then obtain s where s: "resolved_reader fs (without_negative self) = Some s" "readable fs s"
      by (auto simp: read_binary_success)
    then obtain self' where "resolved_reader fs self = Some self'" "s = without_negative self'"
      by (auto simp: resolved_reader_without_negative)
    with s have "resolved_reader fs self = Some self'" "readable fs self'"
      by (simp_all add: readable_without_negative)
    then show "\<exists>tm. fst (read_binary fs self) = Inr tm"
      by (auto simp: read_binary_success)
  qed
next
  fix t m t' m'
  assume both: "fst (read_binary fs self) = Inr (t, m)
          \<and> fst (read_binary fs (without_negative self)) = Inr (t', m')"
  then obtain self' where
    res: "resolved_reader fs self = Some self'"
    and t: "t = \<lparr>shape = (length (channels self), length (start_offsets self),
                          nat (read_size self')),
                 elems = binary_tensor fs self'\<rparr>"
    and m: "m = binary_mask fs self'"
    by (auto simp: read_binary_success)
  from both res have
    t': "t' = \<lparr>shape = (length (channels (without_negative self)),
                        length (start_offsets (without_negative self)),
                        nat (read_size (without_negative self'))),
               elems = binary_tensor fs (without_negative self')\<rparr>"
    and m': "m' = binary_mask fs (without_negative self')"
    by (auto simp: read_binary_success resolved_reader_without_negative)
  have same: "start_offsets self' = start_offsets self"
    by (subst read_binary_resolved_reader(5) [OF res], simp)
  show "m' = map (at_kept (start_offsets self)) m"
    by (simp add: m m' binary_mask_without_negative same)
  show "elems t' = map (at_kept (start_offsets self)) (elems t)"
    by (simp add: t t' binary_tensor_without_negative same)
  show "snd (snd (shape t')) = snd (snd (shape t))"
    by (simp add: t t' without_negative_def)
qed

text \<open>
  Claim C4 on a concrete input: the scenario with the offsets -5 and 4 and a read size of 4.  The
  slice of -5 is invalid and not-a-number, the message is printed, and the slice of 4
  is what the request with the offset 4 alone returns.
\<close>

theorem negative_offsets_only_invalidate_their_slices_witness:
  "read_binary scenario_fs (scenario_reader [- 5, 4] 4) =
     (Inr (\<lparr>shape = (1, 2, 4),
            elems = [[[NaN, NaN, NaN, NaN], [Fin 5, Fin 6, Fin 7, Fin 8]]]\<rparr>, [[False, True]]),
      scenario_reader [- 5, 4] 4,
      [Open ''root.001'', Print_negative_offset (- 5) ''root.001''])
   \<and> (0 :: nat) < length (channels (scenario_reader [- 5, 4] 4))
   \<and> (0 :: nat) < length (start_offsets (scenario_reader [- 5, 4] 4))
   \<and> start_offsets (scenario_reader [- 5, 4] 4) ! 0 <s 0
   \<and> without_negative (scenario_reader [- 5, 4] 4) = scenario_reader [4] 4
   \<and> fst (read_binary scenario_fs (scenario_reader [4] 4)) =
       Inr (\<lparr>shape = (1, 1, 4), elems = [[[Fin 5, Fin 6, Fin 7, Fin 8]]]\<rparr>, [[True]])
   \<and> at_kept [- 5, 4] [False, True] = [True]
   \<and> Print_negative_offset (- 5) ''root.001''
        \<in> set (snd (snd (read_binary scenario_fs (scenario_reader [- 5, 4] 4))))"
proof -
  have run: "read_binary scenario_fs (scenario_reader [- 5, 4] 4) =
     (Inr (\<lparr>shape = (1, 2, 4),
            elems = [[[NaN, NaN, NaN, NaN], [Fin 5, Fin 6, Fin 7, Fin 8]]]\<rparr>, [[False, True]]),
      scenario_reader [- 5, 4] 4,
      [Open ''root.001'', Print_negative_offset (- 5) ''root.001''])"
    by (simp add: eval_defs)
  have run': "fst (read_binary scenario_fs (scenario_reader [4] 4)) =
       Inr (\<lparr>shape = (1, 1, 4), elems = [[[Fin 5, Fin 6, Fin 7, Fin 8]]]\<rparr>, [[True]])"
    by (simp add: eval_defs)
  have c: "(0 :: nat) < length (channels (scenario_reader [- 5, 4] 4))"
    and e: "(0 :: nat) < length (start_offsets (scenario_reader [- 5, 4] 4))"
    and neg: "start_offsets (scenario_reader [- 5, 4] 4) ! 0 <s 0"
    and wn: "without_negative (scenario_reader [- 5, 4] 4) = scenario_reader [4] 4"
    and kept: "at_kept [- 5, 4 :: 64 word] [False, True] = [True]"
    by (simp_all add: scenario_reader_def without_negative_def at_kept_def word_sless_alt)
  have fst_run: "fst (read_binary scenario_fs (scenario_reader [- 5, 4] 4)) =
     Inr (\<lparr>shape = (1, 2, 4),
            elems = [[[NaN, NaN, NaN, NaN], [Fin 5, Fin 6, Fin 7, Fin 8]]]\<rparr>, [[False, True]])"
    by (simp add: run)
  from negative_offsets_only_invalidate_their_slices [of scenario_fs "scenario_reader [- 5, 4] 4"]
    fst_run c e neg
  have "Print_negative_offset (start_offsets (scenario_reader [- 5, 4] 4) ! 0)
          (eegfname_of (scenario_reader [- 5, 4] 4) (channels (scenario_reader [- 5, 4] 4) ! 0))
        \<in> set (snd (snd (read_binary scenario_fs (scenario_reader [- 5, 4] 4))))"
    by blast
  with run run' c e neg wn kept show ?thesis by simp
qed

text \<open>
  Claim C8.  Calling \<^verbatim>\<open>read\<close> a second time, on the reader as the first call left it
  and on the same files, returns the same outcome (the same array, labels and mask, or
  the same exception) and leaves the reader as it was after the first call.  The first
  call changes nothing of the reader but, possibly, its read size; it leaves a read
  size that was not negative as it was, and in the binary backend it replaces a negative
  one by the size of the first channel's file divided by the byte width.
\<close>

theorem read_is_idempotent:
  "fst (read fs (fst (snd (read fs self)))) = fst (read fs self)
   \<and> fst (snd (read fs (fst (snd (read fs self))))) = fst (snd (read fs self))
   \<and> fst (snd (read fs self)) = self\<lparr>read_size := read_size (fst (snd (read fs self)))\<rparr>
   \<and> (0 \<le> read_size self \<longrightarrow> fst (snd (read fs self)) = self)
   \<and> (\<forall>sz. read_size self < 0 \<and> \<not> endswith (dataroot self) ''h5''
            \<and> fst (get_file_size fs self) = Inr sz \<longrightarrow>
          read_size (fst (snd (read fs self))) = int (sz div data_size (file_format self)))"
proof (cases "endswith (dataroot self) ''h5''")
  case True
  then show ?thesis by (simp add: read_assemble)
next
  case False
  let ?s1 = "fst (snd (read_binary fs self))"
  have s1: "fst (snd (read fs self)) = ?s1" using False by (simp add: read_assemble)
  have d: "\<not> endswith (dataroot ?s1) ''h5''" using False by (simp add: dataroot_read_binary)
  have again: "fst (read fs ?s1) = fst (read fs self)" "fst (snd (read fs ?s1)) = ?s1"
    using False d read_binary_twice [of fs self] by (simp_all add: read_assemble)
  have keep: "?s1 = self\<lparr>read_size := read_size ?s1\<rparr>" by (rule read_binary_reader)
  have same: "?s1 = self" if "0 \<le> read_size self"
    using that by (simp add: read_binary_resolved_size)
  have pinned: "read_size ?s1 = int (sz div data_size (file_format self))"
    if "read_size self < 0" "fst (get_file_size fs self) = Inr sz" for sz
    using that read_binary_derived_size [of self fs sz "snd (get_file_size fs self)"]
    by (cases "get_file_size fs self") simp
  show ?thesis using s1 again keep same pinned by simp
qed

text \<open>
  Claim C8 on a concrete input: in the scenario with a read size of -1, the first call leaves the
  read size 8, and a second call on that reader returns the same array and mask.
\<close>

theorem read_is_idempotent_witness:
  "fst (snd (read scenario_fs (scenario_reader [0] (- 1)))) = scenario_reader [0] 8
   \<and> fst (read scenario_fs (scenario_reader [0] 8)) = fst (read scenario_fs (scenario_reader [0] (- 1)))
   \<and> (0 :: int) \<le> read_size (scenario_reader [0] 8)
   \<and> fst (snd (read scenario_fs (scenario_reader [0] 8))) = scenario_reader [0] 8
   \<and> (\<exists>da. fst (read scenario_fs (scenario_reader [0] 8)) = Inr (da, [[True]])
          \<and> elems (values_of da)
              = [[[Fin 2, Fin 4, Fin 6, Fin 8, Fin 10, Fin 12, Fin 14, Fin 16]]])"
proof -
  have first: "fst (snd (read scenario_fs (scenario_reader [0] (- 1)))) = scenario_reader [0] 8"
    by (simp add: eval_defs)
  have pos: "(0 :: int) \<le> read_size (scenario_reader [0] 8)"
    by (simp add: scenario_reader_def)
  have val: "\<exists>da. fst (read scenario_fs (scenario_reader [0] 8)) = Inr (da, [[True]])
          \<and> elems (values_of da)
              = [[[Fin 2, Fin 4, Fin 6, Fin 8, Fin 10, Fin 12, Fin 14, Fin 16]]]"
    by (simp add: eval_defs)
  from read_is_idempotent [of scenario_fs "scenario_reader [0] (- 1)"]
       read_is_idempotent [of scenario_fs "scenario_reader [0] 8"] first pos val
  show ?thesis by simp
qed

text \<open>
  Claim C10.  Take a binary read whose format is one of the table (the byte width is
  that of the format character), and a channel file and a start offset of the request
  that is not negative, as is its byte position.  The samples of that slice are decoded
  from the bytes that the file read returns, and their number is the number of these
  bytes divided by the byte width.  If the number of bytes is not a multiple of the
  byte width, decoding raises and the whole call ends with an exception.  If the call
  returns, the number of bytes is a multiple of the byte width, and the slice is valid
  exactly when the number of decoded samples is not less than the read size: a read
  that the end of the file cuts short at a whole sample just marks the slice invalid.
\<close>

theorem decoded_count_from_returned_bytes:
  assumes "resolved_reader fs self = Some self'"
    and "calcsize (format_string (file_format self)) = Some (data_size (file_format self))"
    and "c < length (channels self)" and "e < length (start_offsets self)"
    and "flat fs (eegfname_of self (channels self ! c)) = Some efile"
    and "\<not> start_offsets self ! e <s 0"
    and "\<not> word_of_nat (data_size (file_format self)) * start_offsets self ! e <s 0"
    and "data = seek_read efile
                  (unat (word_of_nat (data_size (file_format self)) * start_offsets self ! e))
                  (data_size (file_format self) * nat (read_size self'))"
  shows "read_chunk (file_format self) (nat (read_size self')) efile (start_offsets self ! e) =
           (if length data mod data_size (file_format self) \<noteq> 0 then Inl StructError
            else if length data div data_size (file_format self) < nat (read_size self')
                 then Inr None
            else Inr (Some (map (unpack_item (format_string (file_format self)))
                              (chunks (data_size (file_format self))
                                 (length data div data_size (file_format self)) data))))
       \<and> (length data mod data_size (file_format self) \<noteq> 0 \<longrightarrow>
            (\<exists>err. fst (read_binary fs self) = Inl err) \<and> (\<exists>err. fst (read fs self) = Inl err
               \<or> endswith (dataroot self) ''h5''))
       \<and> (\<forall>t m. fst (read_binary fs self) = Inr (t, m) \<longrightarrow>
             length data mod data_size (file_format self) = 0
           \<and> (m ! c ! e \<longleftrightarrow> nat (read_size self') \<le> length data div data_size (file_format self))
           \<and> (m ! c ! e \<longrightarrow>
                 elems t ! c ! e =
                   map (unpack_item (format_string (file_format self)))
                     (chunks (data_size (file_format self)) (nat (read_size self')) data))
           \<and> (\<not> m ! c ! e \<longrightarrow> elems t ! c ! e = replicate (nat (read_size self')) NaN))"
proof -
  let ?ff = "file_format self"
  let ?rs = "nat (read_size self')"
  let ?off = "start_offsets self ! e"
  note r = read_binary_resolved_reader [OF assms(1)]
  have same: "channels self' = channels self" "start_offsets self' = start_offsets self"
    "file_format self' = ?ff"
    "eegfname_of self' (channels self ! c) = eegfname_of self (channels self ! c)"
    by (subst r(5), simp)+
  have chunk: "read_chunk ?ff ?rs efile ?off =
           (if length data mod data_size ?ff \<noteq> 0 then Inl StructError
            else if length data div data_size ?ff < ?rs then Inr None
            else Inr (Some (map (unpack_item (format_string ?ff))
                              (chunks (data_size ?ff) (length data div data_size ?ff) data))))"
    using read_chunk_cases [OF assms(2,6,7), of ?rs efile] assms(8) by (simp add: Let_def)
  have returned: "length data mod data_size ?ff = 0
           \<and> (m ! c ! e \<longleftrightarrow> ?rs \<le> length data div data_size ?ff)
           \<and> (m ! c ! e \<longrightarrow>
                 elems t ! c ! e =
                   map (unpack_item (format_string ?ff)) (chunks (data_size ?ff) ?rs data))
           \<and> (\<not> m ! c ! e \<longrightarrow> elems t ! c ! e = replicate ?rs NaN)"
    if run: "fst (read_binary fs self) = Inr (t, m)" for t m
  proof -
    from run assms(1) have rd: "readable fs self'"
      and t: "elems t = binary_tensor fs self'" and m: "m = binary_mask fs self'"
      by (auto simp: read_binary_success)
    from binary_rows [OF rd, of c e] assms(3,4,5) same obtain r where
      rc: "read_chunk ?ff ?rs efile ?off = Inr r"
      and tv: "elems t ! c ! e = slice_values ?ff ?rs efile ?off"
      and mv: "m ! c ! e = slice_valid ?ff ?rs efile ?off"
      by (auto simp: t m)
    from rc chunk have al: "length data mod data_size ?ff = 0"
      by (auto split: if_splits)
    show ?thesis
    proof (cases "length data div data_size ?ff < ?rs")
      case True
      with chunk al show ?thesis by (simp add: tv mv slice_values_def slice_valid_def)
    next
      case False
      with chunk al have some: "read_chunk ?ff ?rs efile ?off =
          Inr (Some (map (unpack_item (format_string ?ff))
                        (chunks (data_size ?ff) (length data div data_size ?ff) data)))"
        by simp
      from read_chunk_Some_length [OF some] have "length data div data_size ?ff = ?rs" by simp
      with some al show ?thesis by (simp add: tv mv slice_values_def slice_valid_def)
    qed
  qed
  have aborted: "\<exists>err. fst (read_binary fs self) = Inl err"
    if "length data mod data_size ?ff \<noteq> 0"
  proof (cases "fst (read_binary fs self)")
    case (Inl err)
    then show ?thesis by simp
  next
    case (Inr tm)
    then have "fst (read_binary fs self) = Inr (fst tm, snd tm)" by simp
    from returned [OF this] that show ?thesis by simp
  qed
  have aborted_read: "(\<exists>err. fst (read fs self) = Inl err) \<or> endswith (dataroot self) ''h5''"
    if "length data mod data_size ?ff \<noteq> 0"
    using aborted [OF that] by (auto simp: read_assemble assemble_def)
  show ?thesis using chunk returned aborted aborted_read by blast
qed

text \<open>
  Claim C10 on a concrete input: the scenario's file with one byte more, 17 bytes.  A read of 4
  samples at offset 6 gets the last 5 bytes, which are not whole samples: the pass
  raises, and so does the call.  On the file of the scenario itself the same read gets
  4 bytes, two whole samples: nothing raises, and the slice is marked invalid.
\<close>

theorem decoded_count_from_returned_bytes_witness:
  "resolved_reader odd_fs (scenario_reader [0, 6] 4) = Some (scenario_reader [0, 6] 4)
   \<and> calcsize (format_string (file_format (scenario_reader [0, 6] 4)))
       = Some (data_size (file_format (scenario_reader [0, 6] 4)))
   \<and> (0 :: nat) < length (channels (scenario_reader [0, 6] 4))
   \<and> (1 :: nat) < length (start_offsets (scenario_reader [0, 6] 4))
   \<and> flat odd_fs (eegfname_of (scenario_reader [0, 6] 4) (channels (scenario_reader [0, 6] 4) ! 0))
       = Some (samples_1_to_8 @ [9])
   \<and> \<not> start_offsets (scenario_reader [0, 6] 4) ! 1 <s 0
   \<and> \<not> word_of_nat (data_size (file_format (scenario_reader [0, 6] 4)))
          * start_offsets (scenario_reader [0, 6] 4) ! 1 <s 0
   \<and> seek_read (samples_1_to_8 @ [9]) 12 8 = [7, 0, 8, 0, 9]
   \<and> read_chunk (file_format (scenario_reader [0, 6] 4)) 4 (samples_1_to_8 @ [9]) 6
       = Inl StructError
   \<and> (\<exists>err. fst (read_binary odd_fs (scenario_reader [0, 6] 4)) = Inl err)
   \<and> read_binary odd_fs (scenario_reader [0, 6] 4)
       = (Inl StructError, scenario_reader [0, 6] 4, [Open ''root.001''])
   \<and> seek_read samples_1_to_8 12 8 = [7, 0, 8, 0]
   \<and> read_chunk (file_format (scenario_reader [0, 6] 4)) 4 samples_1_to_8 6 = Inr None
   \<and> fst (read_binary scenario_fs (scenario_reader [0, 6] 4)) =
       Inr (\<lparr>shape = (1, 2, 4),
              elems = [[[Fin 1, Fin 2, Fin 3, Fin 4], [NaN, NaN, NaN, NaN]]]\<rparr>, [[True, False]])"
proof -
  let ?self = "scenario_reader [0, 6] 4"
  have a1: "resolved_reader odd_fs ?self = Some ?self"
    by (simp add: resolved_reader_def scenario_reader_def)
  have a2: "calcsize (format_string (file_format ?self)) = Some (data_size (file_format ?self))"
    by (simp add: scenario_reader_def calcsize_def)
  have a3: "(0 :: nat) < length (channels ?self)" and a4: "(1 :: nat) < length (start_offsets ?self)"
    by (simp_all add: scenario_reader_def)
  have a5: "flat odd_fs (eegfname_of ?self (channels ?self ! 0)) = Some (samples_1_to_8 @ [9])"
    by (simp add: odd_fs_def scenario_reader_def eegfname_of_def)
  have a6: "\<not> start_offsets ?self ! 1 <s 0"
    and a7: "\<not> word_of_nat (data_size (file_format ?self)) * start_offsets ?self ! 1 <s 0"
    by (simp_all add: scenario_reader_def word_sless_alt)
  have a8: "[7, 0, 8, 0, 9] = seek_read (samples_1_to_8 @ [9])
                  (unat (word_of_nat (data_size (file_format ?self)) * start_offsets ?self ! 1))
                  (data_size (file_format ?self) * nat (read_size ?self))"
    by (simp add: scenario_reader_def seek_read_def samples_1_to_8_def)
  have d: "seek_read (samples_1_to_8 @ [9]) 12 8 = [7, 0, 8, 0, 9]"
    by (simp add: seek_read_def samples_1_to_8_def)
  have run: "read_binary odd_fs ?self = (Inl StructError, ?self, [Open ''root.001''])"
    by (simp add: eval_defs odd_fs_def)
  from decoded_count_from_returned_bytes [OF a1 a2 a3 a4 a5 a6 a7 a8]
  have "read_chunk (file_format ?self) 4 (samples_1_to_8 @ [9]) 6 = Inl StructError
        \<and> (\<exists>err. fst (read_binary odd_fs ?self) = Inl err)"
    by (simp add: scenario_reader_def)
  note odd = this
  have b1: "resolved_reader scenario_fs ?self = Some ?self"
    by (simp add: resolved_reader_def scenario_reader_def)
  have b5: "flat scenario_fs (eegfname_of ?self (channels ?self ! 0)) = Some samples_1_to_8"
    by (simp add: scenario_fs_def scenario_reader_def eegfname_of_def)
  have b8: "[7, 0, 8, 0] = seek_read samples_1_to_8
                  (unat (word_of_nat (data_size (file_format ?self)) * start_offsets ?self ! 1))
                  (data_size (file_format ?self) * nat (read_size ?self))"
    by (simp add: scenario_reader_def seek_read_def samples_1_to_8_def)
  have d': "seek_read samples_1_to_8 12 8 = [7, 0, 8, 0]"
    by (simp add: seek_read_def samples_1_to_8_def)
  have run': "fst (read_binary scenario_fs ?self) =
       Inr (\<lparr>shape = (1, 2, 4),
              elems = [[[Fin 1, Fin 2, Fin 3, Fin 4], [NaN, NaN, NaN, NaN]]]\<rparr>, [[True, False]])"
    by (simp add: eval_defs)
  from decoded_count_from_returned_bytes [OF b1 a2 a3 a4 b5 a6 a7 b8]
  have even: "read_chunk (file_format ?self) 4 samples_1_to_8 6 = Inr None"
    by (simp add: scenario_reader_def)
  from odd even a1 a2 a3 a4 a5 a6 a7 d run d' run' show ?thesis by simp
qed

text \<open>
  Claim C9, as the code has it.  The binary backend does not reject a request with no
  channels or no start offsets.  With no channels and a read size that is not negative
  it opens no file and returns an empty array and an empty mask.  With no channels and
  a negative read size it raises \<^verbatim>\<open>IndexError\<close> in \<^verbatim>\<open>get_file_size\<close>, before any file is
  opened.  With no start offsets, a read size that is not negative and all channel
  files there, it opens the file of every channel, in order, and returns an array and
  a mask whose offset axis is empty.
\<close>

theorem empty_requests_are_read:
  "(channels self = [] \<and> 0 \<le> read_size self \<longrightarrow>
      read_binary fs self =
        (Inr (\<lparr>shape = (0, length (start_offsets self), nat (read_size self)), elems = []\<rparr>, []),
         self, []))
   \<and> (channels self = [] \<and> read_size self < 0 \<longrightarrow>
      read_binary fs self = (Inl IndexError, self, []))
   \<and> (start_offsets self = [] \<and> 0 \<le> read_size self
        \<and> (\<forall>channel \<in> set (channels self). flat fs (eegfname_of self channel) \<noteq> None) \<longrightarrow>
      read_binary fs self =
        (Inr (\<lparr>shape = (length (channels self), 0, nat (read_size self)),
               elems = replicate (length (channels self)) []\<rparr>,
              replicate (length (channels self)) []),
         self, map (\<lambda>channel. Open (eegfname_of self channel)) (channels self)))"
proof (intro conjI impI)
  assume "channels self = [] \<and> 0 \<le> read_size self"
  then show "read_binary fs self =
        (Inr (\<lparr>shape = (0, length (start_offsets self), nat (read_size self)), elems = []\<rparr>, []),
         self, [])"
    by (simp add: read_binary_def read_binary_resolved_def)
next
  assume "channels self = [] \<and> read_size self < 0"
  then show "read_binary fs self = (Inl IndexError, self, [])"
    by (simp add: read_binary_def get_file_size_def)
next
  assume a: "start_offsets self = [] \<and> 0 \<le> read_size self
        \<and> (\<forall>channel \<in> set (channels self). flat fs (eegfname_of self channel) \<noteq> None)"
  then have rd: "readable fs self"
    by (auto simp: readable_def list_all_iff split: option.splits)
  have t: "binary_tensor fs self = replicate (length (channels self)) []"
    and m: "binary_mask fs self = replicate (length (channels self)) []"
    and ev: "binary_events fs self = map (\<lambda>channel. Open (eegfname_of self channel)) (channels self)"
    using a by (simp_all add: binary_tensor_def binary_mask_def binary_events_def map_replicate_const
                     concat_map_singleton)
  from read_binary_resolved_readable [OF rd, of "[]"] a t m ev
  show "read_binary fs self =
        (Inr (\<lparr>shape = (length (channels self), 0, nat (read_size self)),
               elems = replicate (length (channels self)) []\<rparr>,
              replicate (length (channels self)) []),
         self, map (\<lambda>channel. Open (eegfname_of self channel)) (channels self))"
    by (simp add: read_binary_resolved_size)
qed

text \<open>
  Claim C9 on a concrete input: the scenario without channels, with either kind of read size, and
  the scenario without start offsets.
\<close>

theorem empty_requests_are_read_witness:
  "channels ((scenario_reader [0] 4)\<lparr>channels := []\<rparr>) = []
   \<and> read_binary scenario_fs ((scenario_reader [0] 4)\<lparr>channels := []\<rparr>) =
       (Inr (\<lparr>shape = (0, 1, 4), elems = []\<rparr>, []), (scenario_reader [0] 4)\<lparr>channels := []\<rparr>, [])
   \<and> read_size ((scenario_reader [0] (- 1))\<lparr>channels := []\<rparr>) < 0
   \<and> read_binary scenario_fs ((scenario_reader [0] (- 1))\<lparr>channels := []\<rparr>) =
       (Inl IndexError, (scenario_reader [0] (- 1))\<lparr>channels := []\<rparr>, [])
   \<and> start_offsets (scenario_reader [] 4) = []
   \<and> channels (scenario_reader [] 4) = [''001'']
   \<and> flat scenario_fs (eegfname_of (scenario_reader [] 4) ''001'') = Some samples_1_to_8
   \<and> read_binary scenario_fs (scenario_reader [] 4) =
       (Inr (\<lparr>shape = (1, 0, 4), elems = [[]]\<rparr>, [[]]), scenario_reader [] 4, [Open ''root.001''])"
proof -
  have a: "channels ((scenario_reader [0] 4)\<lparr>channels := []\<rparr>) = []
           \<and> 0 \<le> read_size ((scenario_reader [0] 4)\<lparr>channels := []\<rparr>)"
    and b: "channels ((scenario_reader [0] (- 1))\<lparr>channels := []\<rparr>) = []
           \<and> read_size ((scenario_reader [0] (- 1))\<lparr>channels := []\<rparr>) < 0"
    and c: "start_offsets (scenario_reader [] 4) = [] \<and> 0 \<le> read_size (scenario_reader [] 4)
        \<and> (\<forall>channel \<in> set (channels (scenario_reader [] 4)).
              flat scenario_fs (eegfname_of (scenario_reader [] 4) channel) \<noteq> None)"
    by (simp_all add: scenario_reader_def scenario_fs_def eegfname_of_def)
  from empty_requests_are_read [of "(scenario_reader [0] 4)\<lparr>channels := []\<rparr>" scenario_fs] a
  have 1: "read_binary scenario_fs ((scenario_reader [0] 4)\<lparr>channels := []\<rparr>) =
       (Inr (\<lparr>shape = (0, 1, 4), elems = []\<rparr>, []), (scenario_reader [0] 4)\<lparr>channels := []\<rparr>, [])"
    by (simp add: scenario_reader_def)
  from empty_requests_are_read [of "(scenario_reader [0] (- 1))\<lparr>channels := []\<rparr>" scenario_fs] b
  have 2: "read_binary scenario_fs ((scenario_reader [0] (- 1))\<lparr>channels := []\<rparr>) =
       (Inl IndexError, (scenario_reader [0] (- 1))\<lparr>channels := []\<rparr>, [])"
    by simp
  from empty_requests_are_read [of "scenario_reader [] 4" scenario_fs] c
  have 3: "read_binary scenario_fs (scenario_reader [] 4) =
       (Inr (\<lparr>shape = (1, 0, 4), elems = [[]]\<rparr>, [[]]), scenario_reader [] 4, [Open ''root.001''])"
    by (simp add: scenario_reader_def eegfname_of_def)
  have d: "channels (scenario_reader [] 4) = [''001'']"
    "flat scenario_fs (eegfname_of (scenario_reader [] 4) ''001'') = Some samples_1_to_8"
    by (simp_all add: scenario_reader_def scenario_fs_def eegfname_of_def)
  from a b c d 1 2 3 show ?thesis by simp
qed

text \<open>
  Where C9 as stated fails: the request without start offsets is not rejected, and the
  channel file is opened; the request without channels is not rejected either.
\<close>

theorem empty_request_rejected_counterexample:
  "read_binary scenario_fs (scenario_reader [] 4) =
     (Inr (\<lparr>shape = (1, 0, 4), elems = [[]]\<rparr>, [[]]), scenario_reader [] 4, [Open ''root.001''])
   \<and> read_binary scenario_fs ((scenario_reader [0] 4)\<lparr>channels := []\<rparr>) =
     (Inr (\<lparr>shape = (0, 1, 4), elems = []\<rparr>, []), (scenario_reader [0] 4)\<lparr>channels := []\<rparr>, [])"
  by (simp add: eval_defs)



text \<open>
  Claim C6.  The claim is that the tabular backend, with a read size that is not
  negative, runs its loop over the start offsets to the end.  On the container of the
  scenario, asked for the channel 1 at the offset 0 with a read size of 2, \<^verbatim>\<open>read_hdf5\<close>
  raises \<^verbatim>\<open>TypeError\<close> when it allocates the array, before the loop, and so does \<^verbatim>\<open>read\<close>.
\<close>

theorem read_hdf5_resolved_fails:
  "read_hdf5 h5_fs (h5_reader [''1''] [0] 2) =
     (Inl TypeError, h5_reader [''1''] [0] 2, [Open_h5 ''root.h5''])
   \<and> fst (read h5_fs (h5_reader [''1''] [0] 2)) = Inl TypeError"
proof -
  have "read_hdf5 h5_fs (h5_reader [''1''] [0] 2) =
     (Inl TypeError, h5_reader [''1''] [0] 2, [Open_h5 ''root.h5''])"
    by (simp add: read_hdf5_def h5_reader_def h5_fs_def astype_int_def strip_def
          is_space_def unsigned_val_def digit_val_def builtin_len_def)
  moreover have "endswith (dataroot (h5_reader [''1''] [0] 2)) ''h5''"
    by (simp add: h5_reader_def endswith_def)
  ultimately show ?thesis by (simp add: read_assemble assemble_def)
qed

end
